theory Spec2Isabelle
  imports Main "HOL-Library.Word"
begin

unbundle bit_operations_syntax

section \<open>Bytes, arrays and slices\<close>

type_synonym byte = "8 word"
type_synonym bytes = "byte list"

text \<open>
  A Go array \<open>[n]byte\<close> starts zeroed; \<open>copy(a[:], src)\<close> overwrites its first
  \<open>min n (len src)\<close> bytes. \<open>array_of n src\<close> is the array after that copy.
\<close>

definition array_of :: "nat \<Rightarrow> bytes \<Rightarrow> bytes" where
  "array_of n src = take n src @ replicate (n - length src) 0"

text \<open>
  A Go slice \<open>[]byte\<close> has a length and a capacity. \<open>elems\<close> are its \<open>len\<close> visible
  bytes, \<open>spare\<close> the bytes of the backing array between \<open>len\<close> and \<open>cap\<close>.
  A slice expression \<open>s[lo:hi]\<close> panics unless \<open>0 \<le> lo \<le> hi \<le> cap(s)\<close>; when \<open>hi\<close>
  is left out it is \<open>len(s)\<close>, so \<open>s[lo:]\<close> panics unless \<open>lo \<le> len(s)\<close>.
  \<open>None\<close> is the run-time panic "slice bounds out of range".
\<close>

record slice =
  elems :: bytes
  spare :: bytes

definition slice_of :: "bytes \<Rightarrow> slice" where
  "slice_of bs = \<lparr>elems = bs, spare = []\<rparr>"

definition reslice :: "slice \<Rightarrow> nat \<Rightarrow> nat \<Rightarrow> bytes option" where
  "reslice s lo hi =
     (if lo \<le> hi \<and> hi \<le> length (elems s) + length (spare s)
      then Some (drop lo (take hi (elems s @ spare s)))
      else None)"

definition reslice_from :: "slice \<Rightarrow> nat \<Rightarrow> bytes option" where
  "reslice_from s lo =
     (if lo \<le> length (elems s) then Some (drop lo (elems s)) else None)"

section \<open>Errors and results\<close>

text \<open>
  One constructor per error the modelled code returns. The spec's names:
  \<open>ErrCouldNotDecryptBody\<close> is DecryptFailed ("could not decrypt body"),
  \<open>ErrCouldNotDecrypt\<close> is BadPassword ("could not decrypt"),
  \<open>ErrSecretsNotIdentical\<close> is KeyMismatch ("remote secrets not identical to local
  secrets"), \<open>ErrInvalidCompression\<close> is BadCompression, \<open>ErrCombined c\<close> is an
  \<open>acd.CombinedError\<close> with HTTP status \<open>c\<close> (409 is Conflict).
\<close>

datatype error =
    ErrIO
  | ErrNotExist
  | ErrScrypt
  | ErrCouldNotDecrypt
  | ErrCouldNotUnmarshal
  | ErrCouldNotDecryptBody
  | ErrXDR
  | ErrGzip
  | ErrInvalidCompression
  | ErrRemoteObjectNotFound
  | ErrSecretsNotIdentical
  | ErrSecretsAppeared
  | ErrCombined nat
  | ErrNotFound
  | ErrOther
  | ErrVersion
  | ErrCompression
  | ErrType
  | ErrTypeDir
  | ErrTypeSymlink
  | ErrTypeFile

datatype 'a outcome = Ok 'a | Fail error | Panic

section \<open>The big-endian record codec\<close>

text \<open>
  Modelled from the spec: the record codec (package \<open>xdr2\<close>, a dependency that is not
  among the sources). Section 4.1 of the spec: fixed-width 32 and 64 bit integers in
  big-endian order, fixed-length byte arrays, length-prefixed byte strings (4-byte
  big-endian length, padded to a 4-byte boundary), structs as the concatenation of their
  fields in declaration order. The decoder is strict: padding must be zero, and a length
  that reads past the end of the input fails.
\<close>

fun be_bytes :: "nat \<Rightarrow> nat \<Rightarrow> bytes" where
  "be_bytes 0 v = []"
| "be_bytes (Suc k) v = of_nat (v div 256 ^ k) # be_bytes k v"

definition from_be :: "bytes \<Rightarrow> nat" where
  "from_be bs = fold (\<lambda>b acc. acc * 256 + unat b) bs 0"

definition take_n :: "nat \<Rightarrow> bytes \<Rightarrow> (bytes \<times> bytes) option" where
  "take_n n bs = (if length bs < n then None else Some (take n bs, drop n bs))"

definition xdr_uint32 :: "32 word \<Rightarrow> bytes" where
  "xdr_uint32 w = be_bytes 4 (unat w)"

definition xdr_decode_uint32 :: "bytes \<Rightarrow> (32 word \<times> bytes) option" where
  "xdr_decode_uint32 bs =
     (case take_n 4 bs of None \<Rightarrow> None
      | Some (h, r) \<Rightarrow> Some (of_nat (from_be h), r))"

definition xdr_uint64 :: "64 word \<Rightarrow> bytes" where
  "xdr_uint64 w = be_bytes 8 (unat w)"

definition xdr_decode_uint64 :: "bytes \<Rightarrow> (64 word \<times> bytes) option" where
  "xdr_decode_uint64 bs =
     (case take_n 8 bs of None \<Rightarrow> None
      | Some (h, r) \<Rightarrow> Some (of_nat (from_be h), r))"

definition xdr_pad :: "nat \<Rightarrow> nat" where
  "xdr_pad n = (4 - n mod 4) mod 4"

definition xdr_opaque :: "bytes \<Rightarrow> bytes" where
  "xdr_opaque bs = bs @ replicate (xdr_pad (length bs)) 0"

definition xdr_decode_opaque :: "nat \<Rightarrow> bytes \<Rightarrow> (bytes \<times> bytes) option" where
  "xdr_decode_opaque n bs =
     (case take_n n bs of None \<Rightarrow> None
      | Some (v, r) \<Rightarrow>
          (case take_n (xdr_pad n) r of None \<Rightarrow> None
           | Some (p, r') \<Rightarrow>
               if p = replicate (xdr_pad n) 0 then Some (v, r') else None))"

definition bytes_of_string :: "string \<Rightarrow> bytes" where
  "bytes_of_string s = map (\<lambda>c. of_nat (of_char c)) s"

definition string_of_bytes :: "bytes \<Rightarrow> string" where
  "string_of_bytes bs = map (\<lambda>b. char_of (unat b)) bs"

definition xdr_string :: "string \<Rightarrow> bytes" where
  "xdr_string s = xdr_uint32 (of_nat (length s)) @ xdr_opaque (bytes_of_string s)"

definition xdr_decode_string :: "bytes \<Rightarrow> (string \<times> bytes) option" where
  "xdr_decode_string bs =
     (case xdr_decode_uint32 bs of None \<Rightarrow> None
      | Some (n, r) \<Rightarrow>
          (case xdr_decode_opaque (unat n) r of None \<Rightarrow> None
           | Some (v, r') \<Rightarrow> Some (string_of_bytes v, r')))"

section \<open>encoding/hex\<close>

text \<open>\<open>hex.EncodeToString\<close>: two lowercase hexadecimal digits per byte.\<close>

definition hexdigit :: "nat \<Rightarrow> char" where
  "hexdigit n = ''0123456789abcdef'' ! (n mod 16)"

definition hex_EncodeToString :: "bytes \<Rightarrow> string" where
  "hex_EncodeToString bs = concat (map (\<lambda>b. [hexdigit (unat b div 16), hexdigit (unat b)]) bs)"

section \<open>Library primitives\<close>

text \<open>
  The operations a gzip writer is given: \<open>Write\<close>, \<open>Flush\<close> (a sync flush of the
  pending data, the stream stays open) and \<open>Close\<close> (flush, then the gzip footer). A
  reader of a gzip stream hands out the decompressed data and then ends in one of three
  ways: \<open>io.EOF\<close> after a verified footer, \<open>io.ErrUnexpectedEOF\<close> when the input stops
  before the footer, or another error.
\<close>

datatype gz_op = GzWrite bytes | GzFlush | GzClose

datatype gz_end = GzEOF | GzUnexpectedEOF | GzCorrupt

fun gz_payload :: "gz_op list \<Rightarrow> bytes" where
  "gz_payload [] = []"
| "gz_payload (GzWrite d # ops) = d @ gz_payload ops"
| "gz_payload (GzFlush # ops) = gz_payload ops"
| "gz_payload (GzClose # ops) = gz_payload ops"

text \<open>
  The packages outside the repository are parameters of the model:
  \<open>crypto/sha256\<close>, \<open>crypto/hmac\<close>, \<open>scrypt.Key\<close> (\<open>None\<close> is its parameter error),
  \<open>secretbox.Seal\<close> and \<open>secretbox.Open\<close> (message or box, nonce, key; \<open>None\<close> is
  \<open>ok = false\<close>), the bytes a \<open>compress/gzip\<close> and a \<open>pgzip\<close> writer emit for a
  sequence of operations, what a \<open>pgzip\<close> reader makes of a byte stream (\<open>None\<close> when
  \<open>NewReader\<close> rejects the header), the content probe behind
  \<open>goutil.FileCompressible\<close> (MIME type, compressible), and \<open>path.Join\<close> and
  \<open>path.Dir\<close>.
\<close>

record prims =
  p_sha256 :: "bytes \<Rightarrow> bytes"
  p_hmac_sha256 :: "bytes \<Rightarrow> bytes \<Rightarrow> bytes"
  p_scrypt_Key :: "bytes \<Rightarrow> bytes \<Rightarrow> int \<Rightarrow> int \<Rightarrow> int \<Rightarrow> nat \<Rightarrow> bytes option"
  p_secretbox_Seal :: "bytes \<Rightarrow> bytes \<Rightarrow> bytes \<Rightarrow> bytes"
  p_secretbox_Open :: "bytes \<Rightarrow> bytes \<Rightarrow> bytes \<Rightarrow> bytes option"
  p_gzip_Writer :: "gz_op list \<Rightarrow> bytes"
  p_pgzip_Writer :: "gz_op list \<Rightarrow> bytes"
  p_pgzip_Reader :: "bytes \<Rightarrow> (bytes \<times> gz_end) option"
  p_probe :: "bytes \<Rightarrow> string \<times> bool"
  p_path_Join :: "string \<Rightarrow> string \<Rightarrow> string"
  p_path_Dir :: "string \<Rightarrow> string"

type_synonym fs = "string \<Rightarrow> bytes option"

text \<open>
  Modelled from the spec: the helpers of package \<open>goutil\<close> (not among the sources).
  \<open>FileSHA256\<close> is "digest = SHA256(file_bytes)", \<open>FileHMACSHA256\<close> is
  "F(file) = HMAC-SHA256(k_dedup, file_bytes)", \<open>FileCompressible\<close> "probes the file to
  guess MIME type and whether its type is compressible". A file the system cannot read
  (\<open>fs name = None\<close>) is an I/O error.
\<close>

definition FileSHA256 :: "prims \<Rightarrow> fs \<Rightarrow> string \<Rightarrow> error + bytes" where
  "FileSHA256 P fs filename =
     (case fs filename of None \<Rightarrow> Inl ErrIO | Some c \<Rightarrow> Inr (p_sha256 P c))"

definition FileHMACSHA256 :: "prims \<Rightarrow> fs \<Rightarrow> string \<Rightarrow> bytes \<Rightarrow> error + bytes" where
  "FileHMACSHA256 P fs filename key =
     (case fs filename of None \<Rightarrow> Inl ErrIO | Some c \<Rightarrow> Inr (p_hmac_sha256 P key c))"

definition FileCompressible :: "prims \<Rightarrow> fs \<Rightarrow> string \<Rightarrow> error + (string \<times> bool)" where
  "FileCompressible P fs filename =
     (case fs filename of None \<Rightarrow> Inl ErrIO | Some c \<Rightarrow> Inr (p_probe P c))"

section \<open>Package shared\<close>

definition KeySize :: nat where "KeySize = 32"
definition NonceSize :: nat where "NonceSize = 24"

definition CompNone :: bytes where "CompNone = bytes_of_string ''none''"
definition CompGZIP :: bytes where "CompGZIP = bytes_of_string ''gzip''"

record Keys =
  MD :: bytes
  Data :: bytes
  Dedup :: bytes

record Header =
  h_Version :: "32 word"
  h_Compression :: bytes
  h_Size :: "64 word"
  h_Digest :: bytes
  h_MimeType :: string

definition xdr_Keys :: "Keys \<Rightarrow> bytes" where
  "xdr_Keys k = xdr_opaque (MD k) @ xdr_opaque (Data k) @ xdr_opaque (Dedup k)"

definition xdr_decode_Keys :: "bytes \<Rightarrow> (Keys \<times> bytes) option" where
  "xdr_decode_Keys bs =
     (case xdr_decode_opaque KeySize bs of None \<Rightarrow> None
      | Some (md, r1) \<Rightarrow>
     (case xdr_decode_opaque KeySize r1 of None \<Rightarrow> None
      | Some (da, r2) \<Rightarrow>
     (case xdr_decode_opaque KeySize r2 of None \<Rightarrow> None
      | Some (de, r3) \<Rightarrow> Some (\<lparr>MD = md, Data = da, Dedup = de\<rparr>, r3))))"

definition xdr_Header :: "Header \<Rightarrow> bytes" where
  "xdr_Header h =
     xdr_uint32 (h_Version h) @ xdr_opaque (h_Compression h) @ xdr_uint64 (h_Size h)
       @ xdr_opaque (h_Digest h) @ xdr_string (h_MimeType h)"

definition xdr_decode_Header :: "bytes \<Rightarrow> (Header \<times> bytes) option" where
  "xdr_decode_Header bs =
     (case xdr_decode_uint32 bs of None \<Rightarrow> None
      | Some (v, r1) \<Rightarrow>
     (case xdr_decode_opaque 4 r1 of None \<Rightarrow> None
      | Some (c, r2) \<Rightarrow>
     (case xdr_decode_uint64 r2 of None \<Rightarrow> None
      | Some (sz, r3) \<Rightarrow>
     (case xdr_decode_opaque 32 r3 of None \<Rightarrow> None
      | Some (d, r4) \<Rightarrow>
     (case xdr_decode_string r4 of None \<Rightarrow> None
      | Some (m, r5) \<Rightarrow>
          Some (\<lparr>h_Version = v, h_Compression = c, h_Size = sz, h_Digest = d,
                 h_MimeType = m\<rparr>, r5))))))"

text \<open>
  \<open>NaClNonce\<close> fills a 24-byte array from \<open>rand.Reader\<close>; the argument is what that
  read delivered (\<open>None\<close>: the read failed).
\<close>

definition NaClNonce :: "bytes option \<Rightarrow> error + bytes" where
  "NaClNonce rnd = (case rnd of None \<Rightarrow> Inl ErrIO | Some r \<Rightarrow> Inr (array_of NonceSize r))"

text \<open>
  \<open>Keys.Encrypt\<close> and \<open>KeysDecrypt\<close> copy the derived key into a local array and then
  start \<open>go func() { goutil.Zero(key[:]) }()\<close>: the zeroing runs concurrently with
  \<open>secretbox.Seal\<close> and \<open>secretbox.Open\<close>, which read the same array, with nothing
  ordering the two. Each byte secretbox reads is therefore the derived byte or the zero
  the goroutine wrote. \<open>zs i\<close> says that byte \<open>i\<close> was zeroed before it was read;
  \<open>\<lambda>_. False\<close> is the schedule in which the goroutine runs after the key was used.
\<close>

definition racy_zero :: "(nat \<Rightarrow> bool) \<Rightarrow> bytes \<Rightarrow> bytes" where
  "racy_zero zs key = map (\<lambda>i. if zs i then 0 else key ! i) [0..<length key]"

text \<open>
  \<open>Keys.Encrypt\<close>. \<open>salt_rnd\<close> and \<open>nonce_rnd\<close> are what the two reads of
  \<open>rand.Reader\<close> deliver. Marshalling into and writing to a \<open>bytes.Buffer\<close> cannot fail.
\<close>

definition Keys_Encrypt ::
  "prims \<Rightarrow> bytes option \<Rightarrow> bytes option \<Rightarrow> (nat \<Rightarrow> bool) \<Rightarrow> Keys \<Rightarrow> bytes \<Rightarrow> int \<Rightarrow> int \<Rightarrow> int
     \<Rightarrow> error + bytes" where
  "Keys_Encrypt P salt_rnd nonce_rnd zs k password N r p =
     (let keysXDR = xdr_Keys k in
      case salt_rnd of None \<Rightarrow> Inl ErrIO
      | Some s \<Rightarrow>
     (let salt = array_of KeySize s in
      case p_scrypt_Key P password salt N r p KeySize of None \<Rightarrow> Inl ErrScrypt
      | Some dk \<Rightarrow>
     (let key = racy_zero zs (array_of KeySize dk) in
      case NaClNonce nonce_rnd of Inl e \<Rightarrow> Inl e
      | Inr nonce \<Rightarrow>
     (let ksEncrypted = p_secretbox_Seal P keysXDR nonce key
      in Inr (salt @ nonce @ ksEncrypted)))))"

definition KeysDecrypt ::
  "prims \<Rightarrow> (nat \<Rightarrow> bool) \<Rightarrow> bytes \<Rightarrow> int \<Rightarrow> int \<Rightarrow> int \<Rightarrow> slice \<Rightarrow> Keys outcome" where
  "KeysDecrypt P zs password N r p blob =
     (case reslice blob 0 KeySize of None \<Rightarrow> Panic
      | Some s \<Rightarrow>
     (let salt = array_of KeySize s in
      case reslice blob KeySize (KeySize + NonceSize) of None \<Rightarrow> Panic
      | Some n \<Rightarrow>
     (let nonce = array_of NonceSize n in
      case p_scrypt_Key P password salt N r p KeySize of None \<Rightarrow> Fail ErrScrypt
      | Some dk \<Rightarrow>
     (let key = racy_zero zs (array_of KeySize dk) in
      case reslice_from blob (KeySize + NonceSize) of None \<Rightarrow> Panic
      | Some box \<Rightarrow>
     (case p_secretbox_Open P box nonce key of None \<Rightarrow> Fail ErrCouldNotDecrypt
      | Some ksXDR \<Rightarrow>
     (case xdr_decode_Keys ksXDR of None \<Rightarrow> Fail ErrCouldNotUnmarshal
      | Some (k, rest) \<Rightarrow> Ok k))))))"

text \<open>
  \<open>FileNaClEncrypt\<close>. The file is read three times (digest, probe, copy); the model
  takes one view \<open>fs\<close> of the file system for the whole call. \<open>rnd\<close> is what the read
  of \<open>rand.Reader\<close> delivers. \<open>io.Copy\<close> into the compressor followed by \<open>Close\<close> is the
  operation sequence \<open>[GzWrite content, GzClose]\<close>.
\<close>

definition FileNaClEncrypt ::
  "prims \<Rightarrow> fs \<Rightarrow> bytes option \<Rightarrow> string \<Rightarrow> bool \<Rightarrow> bytes \<Rightarrow> error + bytes" where
  "FileNaClEncrypt P fs rnd filename compress key =
     (case FileSHA256 P fs filename of Inl e \<Rightarrow> Inl e
      | Inr fd \<Rightarrow>
     (case FileCompressible P fs filename of Inl e \<Rightarrow> Inl e
      | Inr (mime, probed) \<Rightarrow>
     (let comp = (if compress then probed else False);
          compression = (if compress \<and> probed then CompGZIP else CompNone)
      in case fs filename of None \<Rightarrow> Inl ErrIO
      | Some content \<Rightarrow>
     (let payloadHeader =
            \<lparr>h_Version = 1, h_Compression = compression,
             h_Size = of_nat (length content), h_Digest = fd, h_MimeType = mime\<rparr>
      in case NaClNonce rnd of Inl e \<Rightarrow> Inl e
      | Inr nonce \<Rightarrow>
     (let b = xdr_Header payloadHeader @
                (if comp then
                   (if 1024 * 1024 < length content
                    then p_pgzip_Writer P [GzWrite content, GzClose]
                    else p_gzip_Writer P [GzWrite content, GzClose])
                 else content);
          encryptedPayload = p_secretbox_Seal P b nonce key
      in Inr (nonce @ encryptedPayload))))))"

definition NaClDecrypt :: "prims \<Rightarrow> slice \<Rightarrow> bytes \<Rightarrow> (Header \<times> bytes) outcome" where
  "NaClDecrypt P body key =
     (case reslice body 0 NonceSize of None \<Rightarrow> Panic
      | Some n \<Rightarrow>
     (let nonce = array_of NonceSize n in
      case reslice_from body NonceSize of None \<Rightarrow> Panic
      | Some box \<Rightarrow>
     (case p_secretbox_Open P box nonce key of None \<Rightarrow> Fail ErrCouldNotDecryptBody
      | Some payload \<Rightarrow>
     (case xdr_decode_Header payload of None \<Rightarrow> Fail ErrXDR
      | Some (mh, r) \<Rightarrow>
          if h_Compression mh = CompNone then Ok (mh, r)
          else if h_Compression mh = CompGZIP then
            (case p_pgzip_Reader P r of None \<Rightarrow> Fail ErrGzip
             | Some (cleartext, e) \<Rightarrow>
                 if e = GzEOF then Ok (mh, cleartext) else Fail ErrGzip)
          else Fail ErrInvalidCompression))))"

section \<open>Package metadata\<close>

text \<open>
  Modelled from the spec: the field widths of the manifest records. Mode, owner and group
  are 32-bit integers, size is a 64-bit integer, and a modification time is 64-bit seconds
  and 32-bit nanoseconds (section 3 of the spec).
\<close>

record Time =
  t_sec :: "64 word"
  t_nsec :: "32 word"

record MHeader =
  m_Version :: "32 word"
  m_Compression :: bytes

record File =
  f_Name :: string
  f_Mode :: "32 word"
  f_Owner :: "32 word"
  f_Group :: "32 word"
  f_Size :: "64 word"
  f_Modified :: Time
  f_MimeType :: string
  f_Digest :: bytes

record Symlink =
  s_Name :: string
  s_Link :: string

record Dir =
  d_Name :: string
  d_Mode :: "32 word"
  d_Owner :: "32 word"
  d_Group :: "32 word"
  d_Modified :: Time

datatype entry = EDir Dir | ESymlink Symlink | EFile File

definition TypeDir :: bytes where "TypeDir = bytes_of_string ''dir'' @ [0]"
definition TypeSymlink :: bytes where "TypeSymlink = bytes_of_string ''syml''"
definition TypeFile :: bytes where "TypeFile = bytes_of_string ''file''"

definition xdr_Time :: "Time \<Rightarrow> bytes" where
  "xdr_Time t = xdr_uint64 (t_sec t) @ xdr_uint32 (t_nsec t)"

definition xdr_decode_Time :: "bytes \<Rightarrow> (Time \<times> bytes) option" where
  "xdr_decode_Time bs =
     (case xdr_decode_uint64 bs of None \<Rightarrow> None
      | Some (s, r1) \<Rightarrow>
     (case xdr_decode_uint32 r1 of None \<Rightarrow> None
      | Some (n, r2) \<Rightarrow> Some (\<lparr>t_sec = s, t_nsec = n\<rparr>, r2)))"

definition xdr_MHeader :: "MHeader \<Rightarrow> bytes" where
  "xdr_MHeader h = xdr_uint32 (m_Version h) @ xdr_opaque (m_Compression h)"

definition xdr_decode_MHeader :: "bytes \<Rightarrow> (MHeader \<times> bytes) option" where
  "xdr_decode_MHeader bs =
     (case xdr_decode_uint32 bs of None \<Rightarrow> None
      | Some (v, r1) \<Rightarrow>
     (case xdr_decode_opaque 4 r1 of None \<Rightarrow> None
      | Some (c, r2) \<Rightarrow> Some (\<lparr>m_Version = v, m_Compression = c\<rparr>, r2)))"

definition xdr_Dir :: "Dir \<Rightarrow> bytes" where
  "xdr_Dir d =
     xdr_string (d_Name d) @ xdr_uint32 (d_Mode d) @ xdr_uint32 (d_Owner d)
       @ xdr_uint32 (d_Group d) @ xdr_Time (d_Modified d)"

definition xdr_decode_Dir :: "bytes \<Rightarrow> (Dir \<times> bytes) option" where
  "xdr_decode_Dir bs =
     (case xdr_decode_string bs of None \<Rightarrow> None
      | Some (n, r1) \<Rightarrow>
     (case xdr_decode_uint32 r1 of None \<Rightarrow> None
      | Some (m, r2) \<Rightarrow>
     (case xdr_decode_uint32 r2 of None \<Rightarrow> None
      | Some (ow, r3) \<Rightarrow>
     (case xdr_decode_uint32 r3 of None \<Rightarrow> None
      | Some (g, r4) \<Rightarrow>
     (case xdr_decode_Time r4 of None \<Rightarrow> None
      | Some (t, r5) \<Rightarrow>
          Some (\<lparr>d_Name = n, d_Mode = m, d_Owner = ow, d_Group = g, d_Modified = t\<rparr>,
                r5))))))"

definition xdr_Symlink :: "Symlink \<Rightarrow> bytes" where
  "xdr_Symlink l = xdr_string (s_Name l) @ xdr_string (s_Link l)"

definition xdr_decode_Symlink :: "bytes \<Rightarrow> (Symlink \<times> bytes) option" where
  "xdr_decode_Symlink bs =
     (case xdr_decode_string bs of None \<Rightarrow> None
      | Some (n, r1) \<Rightarrow>
     (case xdr_decode_string r1 of None \<Rightarrow> None
      | Some (l, r2) \<Rightarrow> Some (\<lparr>s_Name = n, s_Link = l\<rparr>, r2)))"

definition xdr_File :: "File \<Rightarrow> bytes" where
  "xdr_File f =
     xdr_string (f_Name f) @ xdr_uint32 (f_Mode f) @ xdr_uint32 (f_Owner f)
       @ xdr_uint32 (f_Group f) @ xdr_uint64 (f_Size f) @ xdr_Time (f_Modified f)
       @ xdr_string (f_MimeType f) @ xdr_opaque (f_Digest f)"

definition xdr_decode_File :: "bytes \<Rightarrow> (File \<times> bytes) option" where
  "xdr_decode_File bs =
     (case xdr_decode_string bs of None \<Rightarrow> None
      | Some (n, r1) \<Rightarrow>
     (case xdr_decode_uint32 r1 of None \<Rightarrow> None
      | Some (m, r2) \<Rightarrow>
     (case xdr_decode_uint32 r2 of None \<Rightarrow> None
      | Some (ow, r3) \<Rightarrow>
     (case xdr_decode_uint32 r3 of None \<Rightarrow> None
      | Some (g, r4) \<Rightarrow>
     (case xdr_decode_uint64 r4 of None \<Rightarrow> None
      | Some (sz, r5) \<Rightarrow>
     (case xdr_decode_Time r5 of None \<Rightarrow> None
      | Some (t, r6) \<Rightarrow>
     (case xdr_decode_string r6 of None \<Rightarrow> None
      | Some (mt, r7) \<Rightarrow>
     (case xdr_decode_opaque 32 r7 of None \<Rightarrow> None
      | Some (dg, r8) \<Rightarrow>
          Some (\<lparr>f_Name = n, f_Mode = m, f_Owner = ow, f_Group = g, f_Size = sz,
                 f_Modified = t, f_MimeType = mt, f_Digest = dg\<rparr>, r8)))))))))"

text \<open>
  What \<open>os.FileInfo\<close> gives the encoder: mode, size, modification time, and the uid and
  gid of \<open>fi.Sys().(*syscall.Stat_t)\<close> (\<open>None\<close> when the assertion fails).
\<close>

record FileInfo =
  fi_Mode :: "32 word"
  fi_Size :: "64 word"
  fi_ModTime :: Time
  fi_Sys :: "(32 word \<times> 32 word) option"

text \<open>
  The encoder writes through \<open>bw\<close>: a \<open>bufio.Writer\<close> (its pending bytes) or a
  \<open>gzip.Writer\<close> (the operations it was given), both over \<open>w\<close>. \<open>me_w\<close> holds what was
  written to \<open>w\<close> directly: the stream header and what a \<open>bufio\<close> flush hands over. A
  \<open>bufio.Writer\<close> also flushes on its own when its buffer fills; the model moves the bytes
  at \<open>Flush\<close> only, which leaves the contents after a flush the same. \<open>me_broken\<close> is the
  sticky error of a writer whose sink rejected a write: every \<open>Encode\<close> then fails.
  One \<open>Encode\<close> is modelled as one \<open>Write\<close> of the value's encoding.
\<close>

datatype writer = BufioWriter bytes | GzipWriter "gz_op list"

record MetadataEncoder =
  me_w :: bytes
  me_bw :: writer
  me_broken :: bool

definition bw_Write :: "writer \<Rightarrow> bytes \<Rightarrow> writer" where
  "bw_Write bw d =
     (case bw of BufioWriter pending \<Rightarrow> BufioWriter (pending @ d)
      | GzipWriter ops \<Rightarrow> GzipWriter (ops @ [GzWrite d]))"

definition me_Encode :: "MetadataEncoder \<Rightarrow> bytes \<Rightarrow> error option \<times> MetadataEncoder" where
  "me_Encode m d =
     (if me_broken m then (Some ErrIO, m)
      else (None, m\<lparr>me_bw := bw_Write (me_bw m) d\<rparr>))"

text \<open>\<open>NewEncoder\<close> over an empty sink. The header goes to \<open>w\<close> unbuffered and uncompressed.\<close>

definition NewEncoder :: "bool \<Rightarrow> MetadataEncoder" where
  "NewEncoder compress =
     \<lparr>me_w = xdr_MHeader \<lparr>m_Version = 1,
                           m_Compression = (if compress then CompGZIP else CompNone)\<rparr>,
      me_bw = (if compress then GzipWriter [] else BufioWriter []),
      me_broken = False\<rparr>"

definition stat_ids :: "FileInfo \<Rightarrow> 32 word \<times> 32 word" where
  "stat_ids fi = (case fi_Sys fi of Some ids \<Rightarrow> ids | None \<Rightarrow> (0xffffffff, 0xffffffff))"

definition Dir_entry :: "string \<Rightarrow> FileInfo \<Rightarrow> Dir" where
  "Dir_entry path fi =
     \<lparr>d_Name = path, d_Mode = fi_Mode fi, d_Owner = fst (stat_ids fi),
      d_Group = snd (stat_ids fi), d_Modified = fi_ModTime fi\<rparr>"

definition me_Dir :: "MetadataEncoder \<Rightarrow> string \<Rightarrow> FileInfo \<Rightarrow> error option \<times> MetadataEncoder" where
  "me_Dir m path fi =
     (case me_Encode m TypeDir of (Some e, m1) \<Rightarrow> (Some e, m1)
      | (None, m1) \<Rightarrow> me_Encode m1 (xdr_Dir (Dir_entry path fi)))"

text \<open>
  \<open>Symlink\<close> writes the tag first and resolves the link afterwards. \<open>evalSymlinks\<close> and
  \<open>rel\<close> are \<open>filepath.EvalSymlinks\<close> and \<open>filepath.Rel\<close> of the file system at hand
  (\<open>None\<close>: an error); \<open>filepath.IsAbs\<close> is the Unix one.
\<close>

definition filepath_IsAbs :: "string \<Rightarrow> bool" where
  "filepath_IsAbs path = (case path of [] \<Rightarrow> False | c # cs \<Rightarrow> c = CHR ''/'')"

definition me_Symlink ::
  "(string \<Rightarrow> string option) \<Rightarrow> (string \<Rightarrow> string \<Rightarrow> string option) \<Rightarrow> MetadataEncoder \<Rightarrow> string
     \<Rightarrow> FileInfo \<Rightarrow> error option \<times> MetadataEncoder" where
  "me_Symlink evalSymlinks rel m path fi =
     (case me_Encode m TypeSymlink of (Some e, m1) \<Rightarrow> (Some e, m1)
      | (None, m1) \<Rightarrow>
     (case evalSymlinks path of None \<Rightarrow> (Some ErrIO, m1)
      | Some resolved \<Rightarrow>
     (case (if filepath_IsAbs path then Some resolved else rel path resolved) of
        None \<Rightarrow> (Some ErrIO, m1)
      | Some link \<Rightarrow> me_Encode m1 (xdr_Symlink \<lparr>s_Name = path, s_Link = link\<rparr>))))"

definition File_entry :: "string \<Rightarrow> FileInfo \<Rightarrow> string \<Rightarrow> bytes option \<Rightarrow> File" where
  "File_entry path fi mime digest =
     \<lparr>f_Name = path, f_Mode = fi_Mode fi, f_Owner = fst (stat_ids fi),
      f_Group = snd (stat_ids fi), f_Size = fi_Size fi, f_Modified = fi_ModTime fi,
      f_MimeType = mime,
      f_Digest = (case digest of None \<Rightarrow> replicate 32 0 | Some d \<Rightarrow> d)\<rparr>"

definition me_File ::
  "MetadataEncoder \<Rightarrow> string \<Rightarrow> FileInfo \<Rightarrow> string \<Rightarrow> bytes option
     \<Rightarrow> error option \<times> MetadataEncoder" where
  "me_File m path fi mime digest =
     (case me_Encode m TypeFile of (Some e, m1) \<Rightarrow> (Some e, m1)
      | (None, m1) \<Rightarrow> me_Encode m1 (xdr_File (File_entry path fi mime digest)))"

text \<open>
  \<open>Flush\<close>: both writers have a \<open>Flush\<close> method, so the type assertion succeeds and
  \<open>Flush\<close> is what is called on either. Nothing in the package calls \<open>Close\<close>.
\<close>

definition me_Flush :: "MetadataEncoder \<Rightarrow> MetadataEncoder" where
  "me_Flush m =
     (case me_bw m of
        BufioWriter pending \<Rightarrow> m\<lparr>me_w := me_w m @ pending, me_bw := BufioWriter []\<rparr>
      | GzipWriter ops \<Rightarrow> m\<lparr>me_bw := GzipWriter (ops @ [GzFlush])\<rparr>)"

text \<open>
  The contents of the sink \<open>w\<close> after a flush: what was written to it directly, and for
  a gzip writer the bytes it emitted for its operations.
\<close>

definition sink_bytes :: "prims \<Rightarrow> MetadataEncoder \<Rightarrow> bytes" where
  "sink_bytes P m =
     me_w m @ (case me_bw m of BufioWriter pending \<Rightarrow> []
               | GzipWriter ops \<Rightarrow> p_gzip_Writer P ops)"

text \<open>The record bytes handed to the encoder so far (the stream header is 8 bytes).\<close>

definition records_of :: "MetadataEncoder \<Rightarrow> bytes" where
  "records_of m =
     (case me_bw m of BufioWriter pending \<Rightarrow> drop 8 (me_w m) @ pending
      | GzipWriter ops \<Rightarrow> gz_payload ops)"

text \<open>
  The decoder: the undecoded rest of the record stream, and how the reader under it ends
  once that is used up (\<open>GzEOF\<close> for the plain reader).
\<close>

record MetadataDecoder =
  md_data :: bytes
  md_end :: gz_end

definition NewDecoder :: "prims \<Rightarrow> bytes \<Rightarrow> MetadataDecoder outcome" where
  "NewDecoder P bs =
     (case xdr_decode_MHeader bs of None \<Rightarrow> Fail ErrXDR
      | Some (h, r) \<Rightarrow>
          if m_Version h \<noteq> 1 then Fail ErrVersion
          else if m_Compression h = CompNone then Ok \<lparr>md_data = r, md_end = GzEOF\<rparr>
          else if m_Compression h = CompGZIP then
            (case p_pgzip_Reader P r of None \<Rightarrow> Fail ErrGzip
             | Some (d, e) \<Rightarrow> Ok \<lparr>md_data = d, md_end = e\<rparr>)
          else Fail ErrCompression)"

text \<open>
  \<open>Next\<close>. Reading the 4-byte tag from fewer than 4 bytes gives \<open>io.EOF\<close>,
  \<open>io.ErrUnexpectedEOF\<close> or the reader's own error; \<open>IsEOF\<close> accepts the first two, and
  \<open>Next\<close> then returns \<open>io.EOF\<close>.
\<close>

datatype next_result = NextEntry entry | NextEOF | NextErr error

definition Next :: "MetadataDecoder \<Rightarrow> next_result \<times> MetadataDecoder" where
  "Next m =
     (case take_n 4 (md_data m) of
        None \<Rightarrow> (if md_end m = GzCorrupt then NextErr ErrType else NextEOF, m)
      | Some (t, r) \<Rightarrow>
          if t = TypeDir then
            (case xdr_decode_Dir r of None \<Rightarrow> (NextErr ErrTypeDir, m)
             | Some (d, r') \<Rightarrow> (NextEntry (EDir d), m\<lparr>md_data := r'\<rparr>))
          else if t = TypeSymlink then
            (case xdr_decode_Symlink r of None \<Rightarrow> (NextErr ErrTypeSymlink, m)
             | Some (l, r') \<Rightarrow> (NextEntry (ESymlink l), m\<lparr>md_data := r'\<rparr>))
          else if t = TypeFile then
            (case xdr_decode_File r of None \<Rightarrow> (NextErr ErrTypeFile, m)
             | Some (f, r') \<Rightarrow> (NextEntry (EFile f), m\<lparr>md_data := r'\<rparr>))
          else (NextErr ErrType, m))"

text \<open>
  The reading loop of \<open>list\<close>: \<open>Next\<close> until \<open>io.EOF\<close> or an error. Every entry takes at
  least its 4-byte tag, so \<open>length (md_data m)\<close> rounds are enough; \<open>None\<close> is a loop that
  ran out of rounds.
\<close>

fun read_all :: "nat \<Rightarrow> MetadataDecoder \<Rightarrow> (entry list \<times> error option) option" where
  "read_all 0 m = (case fst (Next m) of NextEOF \<Rightarrow> Some ([], None)
                   | NextErr e \<Rightarrow> Some ([], Some e) | NextEntry x \<Rightarrow> None)"
| "read_all (Suc n) m =
     (case Next m of (NextEOF, m') \<Rightarrow> Some ([], None)
      | (NextErr e, m') \<Rightarrow> Some ([], Some e)
      | (NextEntry x, m') \<Rightarrow>
          (case read_all n m' of None \<Rightarrow> None
           | Some (xs, e) \<Rightarrow> Some (x # xs, e)))"

section \<open>Package acdbackup\<close>

text \<open>
  The bits of \<open>os.FileMode\<close> the walk tests: \<open>1 << 31\<close> for a directory, \<open>1 << 27\<close>
  for a symbolic link, \<open>1 << 26\<close>, \<open>1 << 25\<close> and \<open>1 << 24\<close> for a device, a named pipe
  and a socket. \<open>IsRegular\<close> is \<open>m & ModeType == 0\<close>.
\<close>

definition ModeDir :: "32 word" where "ModeDir = 0x80000000"
definition ModeSymlink :: "32 word" where "ModeSymlink = 0x08000000"
definition ModeDevice :: "32 word" where "ModeDevice = 0x04000000"
definition ModeNamedPipe :: "32 word" where "ModeNamedPipe = 0x02000000"
definition ModeSocket :: "32 word" where "ModeSocket = 0x01000000"

definition ModeType :: "32 word" where
  "ModeType = ModeDir OR ModeSymlink OR ModeNamedPipe OR ModeSocket OR ModeDevice"

definition IsRegular :: "32 word \<Rightarrow> bool" where
  "IsRegular m = (m AND ModeType = 0)"

text \<open>
  \<open>modeCreate = iota\<close> is the fifth constant of its block, so the modes are 4, 5 and 6.
\<close>

definition modeCreate :: nat where "modeCreate = 4"
definition modeExtract :: nat where "modeExtract = 5"
definition modeList :: nat where "modeList = 6"

definition StatusConflict :: nat where "StatusConflict = 409"

text \<open>The lines the package prints, and the calls it makes on the store and the system.\<close>

datatype msg =
    MsgSkippingError string error
  | MsgSkipping string error
  | MsgUnsupported string
  | MsgShouldNotHappen error
  | MsgVerbose "32 word" "64 word" string string
  | MsgNoSecrets
  | MsgNoPasswordFile
  | MsgInvalidPassword error

datatype event =
    EvUpload string string bytes
  | EvFind string
  | EvDownload string
  | EvMkdirAll string
  | EvCreate string
  | EvTempFile string
  | EvWrite string bytes
  | EvRename string string
  | EvChmod string "32 word"
  | EvChtimes string Time
  | EvChown string "32 word" "32 word"
  | EvWritePassword bytes

text \<open>
  What the world answers. \<open>e_fs k\<close> is the local file system as the \<open>k\<close>-th file-reading
  helper of a walk step sees it (files can change between two reads), \<open>e_rand k\<close> what
  the \<open>k\<close>-th read of \<open>rand.Reader\<close> delivers. \<open>e_UploadJSON\<close>, \<open>e_GetMetadataFS\<close> and
  \<open>e_DownloadJSON\<close> are the client of the object store (an upload's asset is never used
  by the callers modelled here, so only its error is kept; a lookup gives the asset's id; a
  download gives the slice \<open>ioutil.ReadAll\<close> built). The others are the calls of package
  \<open>os\<close> and \<open>ioutil\<close> (\<open>e_TempFile\<close> gives the new file's name), the two \<open>filepath\<close>
  functions \<open>Symlink\<close> uses, and the password file.
\<close>

record env =
  e_fs :: "nat \<Rightarrow> fs"
  e_rand :: "nat \<Rightarrow> bytes option"
  e_UploadJSON :: "string \<Rightarrow> string \<Rightarrow> bytes \<Rightarrow> error option"
  e_GetMetadataFS :: "string \<Rightarrow> error + string"
  e_DownloadJSON :: "string \<Rightarrow> error + slice"
  e_MkdirAll :: "string \<Rightarrow> error option"
  e_Create :: "string \<Rightarrow> error option"
  e_TempFile :: "string \<Rightarrow> string option"
  e_Write :: "string \<Rightarrow> bytes \<Rightarrow> error option"
  e_Rename :: "string \<Rightarrow> string \<Rightarrow> error option"
  e_Chmod :: "string \<Rightarrow> 32 word \<Rightarrow> error option"
  e_Chtimes :: "string \<Rightarrow> Time \<Rightarrow> error option"
  e_Chown :: "string \<Rightarrow> 32 word \<Rightarrow> 32 word \<Rightarrow> error option"
  e_EvalSymlinks :: "string \<Rightarrow> string option"
  e_Rel :: "string \<Rightarrow> string \<Rightarrow> string option"
  e_ReadPassword :: "error + bytes"
  e_WritePassword :: "bytes \<Rightarrow> error option"

text \<open>
  The context \<open>acdb\<close>, with three fields that are not in the source: \<open>a_out\<close> the lines
  printed so far, \<open>a_trace\<close> the calls made so far, \<open>a_tty\<close> the lines still to come from
  the terminal (a read from an exhausted terminal fails).
\<close>

record acdb =
  a_me :: MetadataEncoder
  a_keys :: Keys
  a_dataID :: string
  a_metadataID :: string
  a_verbose :: bool
  a_compress :: bool
  a_perms :: bool
  a_mode :: nat
  a_root :: string
  a_out :: "msg list"
  a_trace :: "event list"
  a_tty :: "bytes list"

definition say :: "msg \<Rightarrow> acdb \<Rightarrow> acdb" where
  "say m a = a\<lparr>a_out := a_out a @ [m]\<rparr>"

definition did :: "event \<Rightarrow> acdb \<Rightarrow> acdb" where
  "did ev a = a\<lparr>a_trace := a_trace a @ [ev]\<rparr>"

subsection \<open>walk\<close>

text \<open>
  The \<open>switch\<close> of \<open>walk\<close> either returns (the default case) or leaves the function's
  \<open>err\<close>, \<open>digest\<close> and \<open>payload\<close> for the code after it. In the regular-file case
  \<open>mime, _, err := goutil.FileCompressible(path)\<close> declares a new \<open>err\<close> in the scope of
  the case clause; that one receives the result of the probe and of \<open>a.me.File\<close>, and the
  function's \<open>err\<close> stays \<open>nil\<close> from there on.
\<close>

datatype switch_result =
    SwReturn
  | SwBreak "error option" "bytes option" bytes MetadataEncoder

definition walk_switch :: "prims \<Rightarrow> env \<Rightarrow> acdb \<Rightarrow> string \<Rightarrow> FileInfo \<Rightarrow> switch_result" where
  "walk_switch P E a path info =
     (if fi_Mode info AND ModeDir = ModeDir then
        (case me_Dir (a_me a) path info of (err, m) \<Rightarrow> SwBreak err None [] m)
      else if fi_Mode info AND ModeSymlink = ModeSymlink then
        (case me_Symlink (e_EvalSymlinks E) (e_Rel E) (a_me a) path info of
           (err, m) \<Rightarrow> SwBreak err None [] m)
      else if IsRegular (fi_Mode info) \<and> fi_Size info = 0 then
        (case me_File (a_me a) path info [] None of (err, m) \<Rightarrow> SwBreak err None [] m)
      else if IsRegular (fi_Mode info) then
        (case FileHMACSHA256 P (e_fs E 0) path (Dedup (a_keys a)) of
           Inl e \<Rightarrow> SwBreak (Some e) None [] (a_me a)
         | Inr digest \<Rightarrow>
        (case FileNaClEncrypt P (e_fs E 1) (e_rand E 0) path (a_compress a) (Data (a_keys a)) of
           Inl e \<Rightarrow> SwBreak (Some e) (Some digest) [] (a_me a)
         | Inr payload \<Rightarrow>
        (case FileCompressible P (e_fs E 2) path of
           Inl e \<Rightarrow> SwBreak None (Some digest) payload (a_me a)
         | Inr (mime, c) \<Rightarrow>
        (case me_File (a_me a) path info mime (Some digest) of
           (err, m) \<Rightarrow> SwBreak None (Some digest) payload m))))
      else SwReturn)"

definition verbose_line :: "acdb \<Rightarrow> FileInfo \<Rightarrow> string \<Rightarrow> string \<Rightarrow> acdb" where
  "verbose_line a info path ds =
     (if a_verbose a then say (MsgVerbose (fi_Mode info) (fi_Size info) path ds) a else a)"

definition walk :: "prims \<Rightarrow> env \<Rightarrow> acdb \<Rightarrow> string \<Rightarrow> FileInfo \<Rightarrow> error option \<Rightarrow> acdb" where
  "walk P E a path info errIn =
     (case errIn of Some e \<Rightarrow> say (MsgSkippingError path e) a
      | None \<Rightarrow>
     (case walk_switch P E a path info of
        SwReturn \<Rightarrow> say (MsgUnsupported path) a
      | SwBreak err digest payload m \<Rightarrow>
     (let a1 = a\<lparr>a_me := m\<rparr> in
      case err of Some e \<Rightarrow> say (MsgSkipping path e) a1
      | None \<Rightarrow>
     (case digest of None \<Rightarrow> verbose_line a1 info path []
      | Some dg \<Rightarrow>
     (let d = hex_EncodeToString dg;
          a2 = did (EvUpload (a_dataID a1) d payload) a1
      in case e_UploadJSON E (a_dataID a1) d payload of
           None \<Rightarrow> verbose_line a2 info path ('' new '' @ ''=> '' @ d)
         | Some (ErrCombined c) \<Rightarrow>
             if c \<noteq> StatusConflict then say (MsgSkipping path (ErrCombined c)) a2
             else verbose_line a2 info path ('' deduped '' @ ''=> '' @ d)
         | Some e \<Rightarrow> say (MsgShouldNotHappen e) a2)))))"

subsection \<open>downloadPayload and extract\<close>

text \<open>The source's \<open>extract\<close> is \<open>extract_File\<close> here: \<open>extract\<close> is a keyword of the prover.\<close>

definition downloadPayload ::
  "prims \<Rightarrow> env \<Rightarrow> acdb \<Rightarrow> string \<Rightarrow> bytes \<Rightarrow> unit outcome \<times> acdb" where
  "downloadPayload P E a fullpath ident =
     (let ids = hex_EncodeToString ident;
          a1 = did (EvFind (''/data/'' @ ids)) a
      in case e_GetMetadataFS E (''/data/'' @ ids) of
           Inl e \<Rightarrow> (Fail ErrRemoteObjectNotFound, a1)
         | Inr asset \<Rightarrow>
     (let a2 = did (EvDownload asset) a1
      in case e_DownloadJSON E asset of Inl e \<Rightarrow> (Fail e, a2)
         | Inr body \<Rightarrow>
     (case NaClDecrypt P body (Data (a_keys a)) of
        Panic \<Rightarrow> (Panic, a2)
      | Fail e \<Rightarrow> (Fail e, a2)
      | Ok (hdr, payload) \<Rightarrow>
     (let a3 = did (EvTempFile (a_root a)) a2
      in case e_TempFile E (a_root a) of None \<Rightarrow> (Fail ErrIO, a3)
         | Some out \<Rightarrow>
     (let a4 = did (EvWrite out payload) a3
      in case e_Write E out payload of Some e \<Rightarrow> (Fail e, a4)
         | None \<Rightarrow>
     (let dest = p_path_Join P (a_root a) fullpath;
          a5 = did (EvRename out dest) a4
      in case e_Rename E out dest of Some e \<Rightarrow> (Fail e, a5)
         | None \<Rightarrow> (Ok (), a5)))))))"

text \<open>
  \<open>extract\<close> returns \<open>(fatal, err)\<close>: \<open>XOk\<close> is \<open>(false, nil)\<close>, \<open>XErr fatal e\<close> an
  error, \<open>XPanic\<close> a panic that came up from \<open>NaClDecrypt\<close>.
\<close>

datatype extract_result = XOk | XErr bool error | XPanic

definition restore_perms :: "env \<Rightarrow> acdb \<Rightarrow> string \<Rightarrow> File \<Rightarrow> extract_result \<times> acdb" where
  "restore_perms E a evalpath e =
     (let a1 = did (EvChmod evalpath (f_Mode e)) a
      in case e_Chmod E evalpath (f_Mode e) of Some err \<Rightarrow> (XErr True err, a1)
         | None \<Rightarrow>
     (let a2 = did (EvChtimes evalpath (f_Modified e)) a1
      in case e_Chtimes E evalpath (f_Modified e) of Some err \<Rightarrow> (XErr True err, a2)
         | None \<Rightarrow>
     (let a3 = did (EvChown evalpath (f_Owner e) (f_Group e)) a2
      in case e_Chown E evalpath (f_Owner e) (f_Group e) of Some err \<Rightarrow> (XErr True err, a3)
         | None \<Rightarrow> (XOk, a3))))"

definition extract_File :: "prims \<Rightarrow> env \<Rightarrow> acdb \<Rightarrow> File \<Rightarrow> extract_result \<times> acdb" where
  "extract_File P E a e =
     (let dir = p_path_Join P (a_root a) (p_path_Dir P (f_Name e));
          a1 = did (EvMkdirAll dir) a
      in case e_MkdirAll E dir of Some err \<Rightarrow> (XErr True err, a1)
         | None \<Rightarrow>
     (let evalpath = p_path_Join P (a_root a) (f_Name e)
      in if a_mode a = modeExtract \<and> f_Size e = 0 then
           (let a2 = did (EvCreate evalpath) a1
            in case e_Create E evalpath of Some err \<Rightarrow> (XErr True err, a2)
               | None \<Rightarrow>
                   if a_perms a then restore_perms E a2 evalpath e else (XOk, a2))
         else
           (case downloadPayload P E a1 (f_Name e) (f_Digest e) of
              (Panic, a2) \<Rightarrow> (XPanic, a2)
            | (Fail err, a2) \<Rightarrow> (XErr False err, a2)
            | (Ok u, a2) \<Rightarrow>
                if a_perms a then restore_perms E a2 evalpath e else (XOk, a2))))"

subsection \<open>The secrets\<close>

text \<open>
  \<open>PromptPassword\<close> asks twice until both answers agree and are not empty. The first
  argument is the terminal's remaining lines; the result carries what is left of them.
  The prompts themselves are not recorded.
\<close>

fun prompt_loop :: "bytes list \<Rightarrow> bytes option \<times> bytes list" where
  "prompt_loop [] = (None, [])"
| "prompt_loop [p1] = (None, [])"
| "prompt_loop (p1 # p2 # rest) =
     (if p1 = p2 \<and> p1 \<noteq> [] then (Some p1, rest) else prompt_loop rest)"

definition PromptPassword :: "env \<Rightarrow> acdb \<Rightarrow> bool \<Rightarrow> (error + bytes) \<times> acdb" where
  "PromptPassword E a save =
     (case prompt_loop (a_tty a) of
        (None, rest) \<Rightarrow> (Inl ErrIO, a\<lparr>a_tty := rest\<rparr>)
      | (Some p1, rest) \<Rightarrow>
          if save then
            (case e_WritePassword E p1 of
               Some e \<Rightarrow> (Inl e, did (EvWritePassword p1) (a\<lparr>a_tty := rest\<rparr>))
             | None \<Rightarrow> (Inr p1, did (EvWritePassword p1) (a\<lparr>a_tty := rest\<rparr>)))
          else (Inr p1, a\<lparr>a_tty := rest\<rparr>))"

definition verifySecrets ::
  "prims \<Rightarrow> (nat \<Rightarrow> bool) \<Rightarrow> acdb \<Rightarrow> bytes \<Rightarrow> slice \<Rightarrow> unit outcome" where
  "verifySecrets P zs a p blob =
     (case KeysDecrypt P zs p 32768 16 2 blob of
        Panic \<Rightarrow> Panic
      | Fail e \<Rightarrow> Fail e
      | Ok kk \<Rightarrow>
          if MD (a_keys a) = MD kk \<and> Data (a_keys a) = Data kk \<and> Dedup (a_keys a) = Dedup kk
          then Ok ()
          else Fail ErrSecretsNotIdentical)"

text \<open>
  \<open>uploadSecrets\<close>. When the upload fails with a conflict, or with an error that is not a
  \<open>CombinedError\<close>, the function goes on to log \<open>asset.ID\<close> of the \<open>nil\<close> asset the client
  returned.
\<close>

definition uploadSecrets :: "prims \<Rightarrow> env \<Rightarrow> (nat \<Rightarrow> bool) \<Rightarrow> acdb \<Rightarrow> unit outcome \<times> acdb" where
  "uploadSecrets P E zs a =
     (case PromptPassword E (say MsgNoSecrets a) True of
        (Inl e, a1) \<Rightarrow> (Fail e, a1)
      | (Inr p, a1) \<Rightarrow>
     (case Keys_Encrypt P (e_rand E 0) (e_rand E 1) zs (a_keys a1) p 32768 16 2 of
        Inl e \<Rightarrow> (Fail e, a1)
      | Inr blob \<Rightarrow>
     (let a2 = did (EvUpload (a_metadataID a1) ''secrets'' blob) a1
      in case e_UploadJSON E (a_metadataID a1) ''secrets'' blob of
           None \<Rightarrow> (Ok (), a2)
         | Some (ErrCombined c) \<Rightarrow>
             if c \<noteq> StatusConflict then (Fail ErrSecretsAppeared, a2) else (Panic, a2)
         | Some e \<Rightarrow> (Panic, a2))))"

text \<open>
  The loop of \<open>downloadSecrets\<close>. With a password file it ends at once; without one every
  round takes at least two lines from the terminal, so it ends when they run out.
\<close>

function secrets_loop ::
  "prims \<Rightarrow> env \<Rightarrow> (nat \<Rightarrow> bool) \<Rightarrow> slice \<Rightarrow> acdb \<Rightarrow> unit outcome \<times> acdb" where
  "secrets_loop P E zs blob a =
     (case e_ReadPassword E of
        Inr p \<Rightarrow> (verifySecrets P zs a p blob, a)
      | Inl err \<Rightarrow>
          if err \<noteq> ErrNotExist then (Fail err, a)
          else
            (case PromptPassword E (say MsgNoPasswordFile a) False of
               (Inl e, a1) \<Rightarrow> (Fail e, a1)
             | (Inr p, a1) \<Rightarrow>
                 (case verifySecrets P zs a1 p blob of
                    Panic \<Rightarrow> (Panic, a1)
                  | Fail e \<Rightarrow> secrets_loop P E zs blob (say (MsgInvalidPassword e) a1)
                  | Ok u \<Rightarrow>
                      (case e_WritePassword E p of
                         Some e \<Rightarrow> (Fail e, did (EvWritePassword p) a1)
                       | None \<Rightarrow> (Ok (), did (EvWritePassword p) a1)))))"
  by pat_completeness auto
termination
proof (relation "measure (\<lambda>(P, E, zs, blob, a). length (a_tty a))")
  show "wf (measure (\<lambda>(P, E, zs, blob, a). length (a_tty a)))" by simp
next
  fix P :: prims and E :: env and zs :: "nat \<Rightarrow> bool" and blob :: slice and a :: acdb
    and x :: "error + bytes" and y :: acdb and p :: bytes and e :: error
  assume "(x, y) = PromptPassword E (say MsgNoPasswordFile a) False" and "x = Inr p"
  then have pp: "PromptPassword E (say MsgNoPasswordFile a) False = (Inr p, y)" by simp
  have shorter: "fst (prompt_loop t) = Some q \<Longrightarrow> length (snd (prompt_loop t)) < length t"
    for t q
    by (induction t rule: prompt_loop.induct) (auto split: if_splits)
  from pp have "length (a_tty y) < length (a_tty a)"
    using shorter[of "a_tty a"]
    by (auto simp: PromptPassword_def say_def split: prod.splits option.splits if_splits)
  then show "((P, E, zs, blob, say (MsgInvalidPassword e) y), (P, E, zs, blob, a))
      \<in> measure (\<lambda>(P, E, zs, blob, a). length (a_tty a))"
    by (simp add: say_def)
qed

definition downloadSecrets :: "prims \<Rightarrow> env \<Rightarrow> (nat \<Rightarrow> bool) \<Rightarrow> acdb \<Rightarrow> unit outcome \<times> acdb" where
  "downloadSecrets P E zs a =
     (let a1 = did (EvFind (''metadata'' @ ''/'' @ ''secrets'')) a
      in case e_GetMetadataFS E (''metadata'' @ ''/'' @ ''secrets'') of
           Inl err \<Rightarrow>
             if err = ErrNotFound then uploadSecrets P E zs a1
             else (Fail ErrRemoteObjectNotFound, a1)
         | Inr asset \<Rightarrow>
     (let a2 = did (EvDownload asset) a1
      in case e_DownloadJSON E asset of Inl err \<Rightarrow> (Fail err, a2)
         | Inr blob \<Rightarrow> secrets_loop P E zs blob a2))"

section \<open>What is assumed of the primitives\<close>

text \<open>
  \<open>secretbox_ok\<close>: opening a box with the nonce and key that sealed it gives the message
  back. \<open>secretbox_ideal\<close>: a box does not open under another key (the symbolic model of
  authenticated encryption; in the real primitive this holds up to a negligible
  probability). \<open>gzip_ok\<close>: the reader restores what was written to a writer that was
  closed, and reaches \<open>io.EOF\<close>. \<open>gzip_flushed_ok\<close>: of a stream that was flushed but
  never closed the reader still hands out the data, and then stops with
  \<open>io.ErrUnexpectedEOF\<close>. \<open>sha256_ok\<close>: a digest has 32 bytes. \<open>probe_ok\<close>: a MIME type
  is shorter than \<open>2 ^ 32\<close> bytes, so that its length fits the codec's length prefix.
\<close>

definition secretbox_ok :: "prims \<Rightarrow> bool" where
  "secretbox_ok P = (\<forall>m n k. p_secretbox_Open P (p_secretbox_Seal P m n k) n k = Some m)"

definition secretbox_ideal :: "prims \<Rightarrow> bool" where
  "secretbox_ideal P =
     (\<forall>m n k k'. length k = KeySize \<and> length k' = KeySize \<and> k \<noteq> k'
         \<longrightarrow> p_secretbox_Open P (p_secretbox_Seal P m n k) n k' = None)"

definition gzip_ok :: "prims \<Rightarrow> bool" where
  "gzip_ok P =
     (\<forall>d. p_pgzip_Reader P (p_gzip_Writer P [GzWrite d, GzClose]) = Some (d, GzEOF)
        \<and> p_pgzip_Reader P (p_pgzip_Writer P [GzWrite d, GzClose]) = Some (d, GzEOF))"

definition gzip_flushed_ok :: "prims \<Rightarrow> bool" where
  "gzip_flushed_ok P =
     (\<forall>ops. GzClose \<notin> set ops
         \<longrightarrow> p_pgzip_Reader P (p_gzip_Writer P (ops @ [GzFlush]))
               = Some (gz_payload ops, GzUnexpectedEOF))"

definition sha256_ok :: "prims \<Rightarrow> bool" where
  "sha256_ok P = (\<forall>m. length (p_sha256 P m) = 32)"

definition probe_ok :: "prims \<Rightarrow> bool" where
  "probe_ok P = (\<forall>c. length (fst (p_probe P c)) < 2 ^ 32)"

definition keys_wf :: "Keys \<Rightarrow> bool" where
  "keys_wf k = (length (MD k) = KeySize \<and> length (Data k) = KeySize \<and> length (Dedup k) = KeySize)"

section \<open>An instance of the primitives\<close>

text \<open>
  A small instance of the parameters, for evaluating the model on concrete inputs. It is
  not cryptography: the "box" is the key, the nonce and the message in the clear, the
  "digest" a length, the "gzip" stream a tagged copy of the data (tag 1 before each data
  byte, 2 for a flush, 3 for the footer).
\<close>

definition stub_sha256 :: "bytes \<Rightarrow> bytes" where
  "stub_sha256 m = replicate 31 0 @ [of_nat (length m)]"

definition stub_hmac_sha256 :: "bytes \<Rightarrow> bytes \<Rightarrow> bytes" where
  "stub_hmac_sha256 k m = replicate 31 0 @ [fold (+) (k @ m) 0]"

definition stub_scrypt_Key :: "bytes \<Rightarrow> bytes \<Rightarrow> int \<Rightarrow> int \<Rightarrow> int \<Rightarrow> nat \<Rightarrow> bytes option" where
  "stub_scrypt_Key password salt N r p keyLen =
     (if N \<le> 1 then None else Some (array_of keyLen (password @ salt)))"

definition stub_Seal :: "bytes \<Rightarrow> bytes \<Rightarrow> bytes \<Rightarrow> bytes" where
  "stub_Seal message nonce key = key @ nonce @ message"

definition stub_Open :: "bytes \<Rightarrow> bytes \<Rightarrow> bytes \<Rightarrow> bytes option" where
  "stub_Open box nonce key =
     (if take (length key + length nonce) box = key @ nonce
      then Some (drop (length key + length nonce) box) else None)"

fun stub_gz_op :: "gz_op \<Rightarrow> bytes" where
  "stub_gz_op (GzWrite d) = concat (map (\<lambda>b. [1, b]) d)"
| "stub_gz_op GzFlush = [2]"
| "stub_gz_op GzClose = [3]"

definition stub_gzip_Writer :: "gz_op list \<Rightarrow> bytes" where
  "stub_gzip_Writer ops = [31, 139] @ concat (map stub_gz_op ops)"

fun stub_inflate :: "bytes \<Rightarrow> bytes \<times> gz_end" where
  "stub_inflate [] = ([], GzUnexpectedEOF)"
| "stub_inflate [t] =
     (if t = 2 then ([], GzUnexpectedEOF) else if t = 3 then ([], GzEOF) else ([], GzCorrupt))"
| "stub_inflate (t # b # rest) =
     (if t = 1 then (b # fst (stub_inflate rest), snd (stub_inflate rest))
      else if t = 2 then stub_inflate (b # rest)
      else if t = 3 then ([], GzEOF)
      else ([], GzCorrupt))"

definition stub_pgzip_Reader :: "bytes \<Rightarrow> (bytes \<times> gz_end) option" where
  "stub_pgzip_Reader bs =
     (case bs of
        a # b # rest \<Rightarrow> if a = 31 \<and> b = 139 then Some (stub_inflate rest) else None
      | _ \<Rightarrow> None)"

definition stub_probe :: "bytes \<Rightarrow> string \<times> bool" where
  "stub_probe c =
     (case c of [] \<Rightarrow> (''application/octet-stream'', False)
      | b # bs \<Rightarrow>
          if b < 128 then (''text/plain'', True) else (''application/octet-stream'', False))"

definition stub_prims :: prims where
  "stub_prims =
     \<lparr>p_sha256 = stub_sha256, p_hmac_sha256 = stub_hmac_sha256,
      p_scrypt_Key = stub_scrypt_Key, p_secretbox_Seal = stub_Seal,
      p_secretbox_Open = stub_Open, p_gzip_Writer = stub_gzip_Writer,
      p_pgzip_Writer = stub_gzip_Writer, p_pgzip_Reader = stub_pgzip_Reader,
      p_probe = stub_probe, p_path_Join = (\<lambda>a b. a @ ''/'' @ b), p_path_Dir = (\<lambda>a. ''.'')\<rparr>"

text \<open>
  A world for the same purpose: one local file system at every read, one answer to every
  upload, at most one object in the store, a password file or none, and system calls that
  succeed.
\<close>

definition env_of :: "fs \<Rightarrow> error option \<Rightarrow> (string \<times> slice) option \<Rightarrow> error + bytes \<Rightarrow> env" where
  "env_of files up obj pw =
     \<lparr>e_fs = (\<lambda>k. files),
      e_rand = (\<lambda>k. Some (replicate 32 (of_nat k))),
      e_UploadJSON = (\<lambda>parent name body. up),
      e_GetMetadataFS =
        (\<lambda>p. case obj of None \<Rightarrow> Inl ErrNotFound
              | Some (name, b) \<Rightarrow> if p = name then Inr ''asset-1'' else Inl ErrNotFound),
      e_DownloadJSON =
        (\<lambda>i. case obj of None \<Rightarrow> Inl (ErrCombined 404)
              | Some (name, b) \<Rightarrow> if i = ''asset-1'' then Inr b else Inl (ErrCombined 404)),
      e_MkdirAll = (\<lambda>p. None),
      e_Create = (\<lambda>p. None),
      e_TempFile = (\<lambda>d. Some (d @ ''/acdb001'')),
      e_Write = (\<lambda>f d. None),
      e_Rename = (\<lambda>f g. None),
      e_Chmod = (\<lambda>f m. None),
      e_Chtimes = (\<lambda>f t. None),
      e_Chown = (\<lambda>f u g. None),
      e_EvalSymlinks = (\<lambda>p. None),
      e_Rel = (\<lambda>p q. None),
      e_ReadPassword = pw,
      e_WritePassword = (\<lambda>p. None)\<rparr>"

definition keys0 :: Keys where
  "keys0 = \<lparr>MD = replicate 32 1, Data = replicate 32 2, Dedup = replicate 32 3\<rparr>"

definition keys1 :: Keys where
  "keys1 = \<lparr>MD = replicate 32 4, Data = replicate 32 5, Dedup = replicate 32 6\<rparr>"

definition acdb0 :: acdb where
  "acdb0 =
     \<lparr>a_me = NewEncoder False, a_keys = keys0, a_dataID = ''data-id'',
      a_metadataID = ''metadata-id'', a_verbose = False, a_compress = False, a_perms = False,
      a_mode = modeExtract, a_root = ''out'', a_out = [], a_trace = [], a_tty = []\<rparr>"

definition info0 :: FileInfo where
  "info0 = \<lparr>fi_Mode = 420, fi_Size = 3, fi_ModTime = \<lparr>t_sec = 1448400000, t_nsec = 0\<rparr>,
            fi_Sys = Some (1000, 1000)\<rparr>"

definition fs0 :: fs where
  "fs0 = (\<lambda>name. if name = ''f'' then Some [104, 105, 10] else None)"

text \<open>Inputs for the evaluations below.\<close>

definition bad_header :: Header where
  "bad_header = \<lparr>h_Version = 1, h_Compression = CompNone, h_Size = 99,
                  h_Digest = replicate 32 0, h_MimeType = ''text/plain''\<rparr>"

definition bad_object :: bytes where
  "bad_object =
     replicate 24 7 @ stub_Seal (xdr_Header bad_header @ [104, 105, 10]) (replicate 24 7) (Data keys0)"

definition hunter2 :: bytes where "hunter2 = bytes_of_string ''hunter2''"
definition Hunter2 :: bytes where "Hunter2 = bytes_of_string ''Hunter2''"

definition secrets1 :: bytes where
  "secrets1 =
     replicate 32 0 @ replicate 24 1
       @ stub_Seal (xdr_Keys keys1) (replicate 24 1) (array_of 32 (hunter2 @ replicate 32 0))"

section \<open>Sequences of calls and kinds of events\<close>

text \<open>
  A run of the manifest writer is a sequence of its four methods; \<open>gz_ops\<close> are the
  operations its gzip writer was given (none for the plain writer).
\<close>

datatype me_call =
    CallDir string FileInfo
  | CallSymlink string FileInfo
  | CallFile string FileInfo string "bytes option"
  | CallFlush

fun me_step ::
  "(string \<Rightarrow> string option) \<Rightarrow> (string \<Rightarrow> string \<Rightarrow> string option) \<Rightarrow> MetadataEncoder \<Rightarrow> me_call
     \<Rightarrow> MetadataEncoder" where
  "me_step ev rel m (CallDir path fi) = snd (me_Dir m path fi)"
| "me_step ev rel m (CallSymlink path fi) = snd (me_Symlink ev rel m path fi)"
| "me_step ev rel m (CallFile path fi mime digest) = snd (me_File m path fi mime digest)"
| "me_step ev rel m CallFlush = me_Flush m"

definition me_run ::
  "(string \<Rightarrow> string option) \<Rightarrow> (string \<Rightarrow> string \<Rightarrow> string option) \<Rightarrow> me_call list \<Rightarrow> MetadataEncoder
     \<Rightarrow> MetadataEncoder" where
  "me_run ev rel calls m = foldl (me_step ev rel) m calls"

text \<open>
  The entry a call writes when it succeeds; \<open>Flush\<close> writes none, and neither does a
  \<open>Symlink\<close> whose link cannot be resolved (that call leaves its tag in the stream and
  returns an error). An entry is legal when its strings fit the codec's 32-bit length prefix
  and its digest has 32 bytes.
\<close>

fun entry_of_call ::
  "(string \<Rightarrow> string option) \<Rightarrow> (string \<Rightarrow> string \<Rightarrow> string option) \<Rightarrow> me_call
     \<Rightarrow> entry option" where
  "entry_of_call ev rel (CallDir path fi) = Some (EDir (Dir_entry path fi))"
| "entry_of_call ev rel (CallSymlink path fi) =
     (case ev path of None \<Rightarrow> None
      | Some resolved \<Rightarrow>
          (case (if filepath_IsAbs path then Some resolved else rel path resolved) of
             None \<Rightarrow> None
           | Some link \<Rightarrow> Some (ESymlink \<lparr>s_Name = path, s_Link = link\<rparr>)))"
| "entry_of_call ev rel (CallFile path fi mime digest) =
     Some (EFile (File_entry path fi mime digest))"
| "entry_of_call ev rel CallFlush = None"

fun call_ok ::
  "(string \<Rightarrow> string option) \<Rightarrow> (string \<Rightarrow> string \<Rightarrow> string option) \<Rightarrow> me_call \<Rightarrow> bool" where
  "call_ok ev rel (CallSymlink path fi) = (entry_of_call ev rel (CallSymlink path fi) \<noteq> None)"
| "call_ok ev rel c = True"

fun legal_entry :: "entry \<Rightarrow> bool" where
  "legal_entry (EDir d) = (length (d_Name d) < 2 ^ 32)"
| "legal_entry (ESymlink l) = (length (s_Name l) < 2 ^ 32 \<and> length (s_Link l) < 2 ^ 32)"
| "legal_entry (EFile f) =
     (length (f_Name f) < 2 ^ 32 \<and> length (f_MimeType f) < 2 ^ 32 \<and> length (f_Digest f) = 32)"

fun encode_entry :: "entry \<Rightarrow> bytes" where
  "encode_entry (EDir d) = TypeDir @ xdr_Dir d"
| "encode_entry (ESymlink l) = TypeSymlink @ xdr_Symlink l"
| "encode_entry (EFile f) = TypeFile @ xdr_File f"

definition entries_of ::
  "(string \<Rightarrow> string option) \<Rightarrow> (string \<Rightarrow> string \<Rightarrow> string option) \<Rightarrow> me_call list
     \<Rightarrow> entry list" where
  "entries_of ev rel calls = List.map_filter (entry_of_call ev rel) calls"

text \<open>
  What holds of a manifest writer from \<open>NewEncoder compress\<close> on, as long as its sink
  takes the writes: the sink starts with the 8-byte stream header, and the writer is the
  one \<open>NewEncoder\<close> chose, a gzip writer that was never closed or a plain one.
\<close>

definition me_inv :: "bool \<Rightarrow> MetadataEncoder \<Rightarrow> bool" where
  "me_inv compress m =
     (\<not> me_broken m \<and>
      (if compress
       then me_w m = xdr_MHeader \<lparr>m_Version = 1, m_Compression = CompGZIP\<rparr>
            \<and> (case me_bw m of GzipWriter ops \<Rightarrow> GzClose \<notin> set ops
                | BufioWriter pending \<Rightarrow> False)
       else take 8 (me_w m) = xdr_MHeader \<lparr>m_Version = 1, m_Compression = CompNone\<rparr>
            \<and> length (xdr_MHeader \<lparr>m_Version = 1, m_Compression = CompNone\<rparr>) = 8
            \<and> (case me_bw m of GzipWriter ops \<Rightarrow> False
                | BufioWriter pending \<Rightarrow> True)))"

fun gz_ops :: "writer \<Rightarrow> gz_op list" where
  "gz_ops (BufioWriter pending) = []"
| "gz_ops (GzipWriter ops) = ops"

fun is_store_call :: "event \<Rightarrow> bool" where
  "is_store_call (EvUpload parent name body) = True"
| "is_store_call (EvFind path) = True"
| "is_store_call (EvDownload asset) = True"
| "is_store_call ev = False"

fun is_create :: "event \<Rightarrow> bool" where
  "is_create (EvCreate path) = True"
| "is_create ev = False"


section \<open>The codec round-trips\<close>

lemma length_be_bytes: "length (be_bytes k v) = k"
  by (induction k) auto

lemma fold_be_bytes:
  "fold (\<lambda>b acc. acc * 256 + unat b) (be_bytes k v) acc = acc * 256 ^ k + v mod 256 ^ k"
proof (induction k arbitrary: acc)
  case 0
  then show ?case by simp
next
  case (Suc k)
  have b: "unat (of_nat (v div 256 ^ k) :: byte) = (v div 256 ^ k) mod 256"
    by (simp add: unat_of_nat)
  have m: "v mod (256 ^ k * 256) = 256 ^ k * (v div 256 ^ k mod 256) + v mod 256 ^ k"
    by (rule mod_mult2_eq)
  have "fold (\<lambda>b acc. acc * 256 + unat b) (be_bytes (Suc k) v) acc
      = (acc * 256 + (v div 256 ^ k) mod 256) * 256 ^ k + v mod 256 ^ k"
    using Suc.IH[of "acc * 256 + (v div 256 ^ k) mod 256"] by (simp add: b)
  also have "\<dots> = acc * 256 ^ Suc k + v mod 256 ^ Suc k"
    using m by (simp add: algebra_simps)
  finally show ?case .
qed

lemma from_be_be_bytes: "v < 256 ^ k \<Longrightarrow> from_be (be_bytes k v) = v"
  by (simp add: from_be_def fold_be_bytes)

lemma take_n_append: "length a = n \<Longrightarrow> take_n n (a @ r) = Some (a, r)"
  by (simp add: take_n_def)

lemma xdr_uint32_roundtrip: "xdr_decode_uint32 (xdr_uint32 w @ r) = Some (w, r)"
proof -
  have "unat w < 256 ^ 4" using unsigned_less[of w, where ?'a = nat] by simp
  then show ?thesis
    by (simp add: xdr_decode_uint32_def xdr_uint32_def take_n_append length_be_bytes
        from_be_be_bytes)
qed

lemma xdr_uint64_roundtrip: "xdr_decode_uint64 (xdr_uint64 w @ r) = Some (w, r)"
proof -
  have "unat w < 256 ^ 8" using unsigned_less[of w, where ?'a = nat] by simp
  then show ?thesis
    by (simp add: xdr_decode_uint64_def xdr_uint64_def take_n_append length_be_bytes
        from_be_be_bytes)
qed

lemma xdr_opaque_roundtrip:
  "length bs = n \<Longrightarrow> xdr_decode_opaque n (xdr_opaque bs @ r) = Some (bs, r)"
  by (simp add: xdr_decode_opaque_def xdr_opaque_def take_n_append)

lemma string_of_bytes_of_string: "string_of_bytes (bytes_of_string s) = s"
  by (induction s) (auto simp: bytes_of_string_def string_of_bytes_def unat_of_nat)

lemma xdr_string_roundtrip:
  assumes "length s < 2 ^ 32"
  shows "xdr_decode_string (xdr_string s @ r) = Some (s, r)"
proof -
  have u: "unat (of_nat (length s) :: 32 word) = length s"
    using assms by (simp add: unat_of_nat)
  have l: "length (bytes_of_string s) = length s" by (simp add: bytes_of_string_def)
  show ?thesis
    by (simp add: xdr_decode_string_def xdr_string_def xdr_uint32_roundtrip u
        xdr_opaque_roundtrip l string_of_bytes_of_string)
qed

lemma xdr_Header_roundtrip:
  assumes "length (h_Compression h) = 4" "length (h_Digest h) = 32"
    "length (h_MimeType h) < 2 ^ 32"
  shows "xdr_decode_Header (xdr_Header h @ r) = Some (h, r)"
  using assms
  by (simp add: xdr_decode_Header_def xdr_Header_def xdr_uint32_roundtrip xdr_uint64_roundtrip
      xdr_opaque_roundtrip xdr_string_roundtrip)

lemma xdr_Keys_roundtrip:
  assumes "keys_wf k"
  shows "xdr_decode_Keys (xdr_Keys k @ r) = Some (k, r)"
  using assms
  by (simp add: xdr_decode_Keys_def xdr_Keys_def xdr_opaque_roundtrip keys_wf_def)

section \<open>Arrays and compression tags\<close>

lemma length_array_of: "length (array_of n src) = n"
  by (simp add: array_of_def)

lemma array_of_id: "length src = n \<Longrightarrow> array_of n src = src"
  by (simp add: array_of_def)

lemma CompNone_neq_CompGZIP: "CompNone \<noteq> CompGZIP"
  by (simp add: CompNone_def CompGZIP_def bytes_of_string_def)

lemma length_Comp: "length CompNone = 4" "length CompGZIP = 4"
  by (simp_all add: CompNone_def CompGZIP_def bytes_of_string_def)

section \<open>The instance meets the assumptions\<close>

lemma stub_secretbox_ok: "secretbox_ok stub_prims"
  by (simp add: secretbox_ok_def stub_prims_def stub_Seal_def stub_Open_def)

lemma stub_secretbox_ideal: "secretbox_ideal stub_prims"
  by (auto simp: secretbox_ideal_def stub_prims_def stub_Seal_def stub_Open_def)

lemma stub_inflate_data:
  "stub_inflate (concat (map (\<lambda>b. [1, b]) d) @ rest)
     = (d @ fst (stub_inflate rest), snd (stub_inflate rest))"
  by (induction d) auto

lemma stub_inflate_flush: "stub_inflate (2 # rest) = stub_inflate rest"
  by (cases rest) auto

lemma stub_inflate_ops:
  "GzClose \<notin> set ops \<Longrightarrow>
   stub_inflate (concat (map stub_gz_op ops) @ rest)
     = (gz_payload ops @ fst (stub_inflate rest), snd (stub_inflate rest))"
proof (induction ops)
  case Nil
  then show ?case by simp
next
  case (Cons x ops)
  then show ?case
    by (cases x) (auto simp: stub_inflate_data stub_inflate_flush)
qed

lemma stub_gzip_ok: "gzip_ok stub_prims"
  using stub_inflate_data[of _ "[3]"]
  by (simp add: gzip_ok_def stub_prims_def stub_gzip_Writer_def stub_pgzip_Reader_def)

lemma stub_gzip_flushed_ok: "gzip_flushed_ok stub_prims"
  using stub_inflate_ops[of _ "[2]"]
  by (simp add: gzip_flushed_ok_def stub_prims_def stub_gzip_Writer_def stub_pgzip_Reader_def)

lemma stub_sha256_ok: "sha256_ok stub_prims"
  by (simp add: sha256_ok_def stub_prims_def stub_sha256_def)

lemma stub_probe_ok: "probe_ok stub_prims"
  by (auto simp: probe_ok_def stub_prims_def stub_probe_def split: list.splits)

lemma keys0_wf: "keys_wf keys0"
  by (simp add: keys_wf_def keys0_def KeySize_def)

lemma keys1_wf: "keys_wf keys1"
  by (simp add: keys_wf_def keys1_def KeySize_def)

section \<open>The envelope\<close>

lemma FileNaClEncrypt_shape:
  assumes "FileNaClEncrypt P fs rnd filename compress key = Inr envelope"
  shows "\<exists>r b. envelope = array_of NonceSize r @ p_secretbox_Seal P b (array_of NonceSize r) key"
  using assms
  by (fastforce simp: FileNaClEncrypt_def FileSHA256_def FileCompressible_def NaClNonce_def Let_def
      split: option.splits sum.splits prod.splits if_splits)

lemma FileNaClEncrypt_succeeds:
  "fs filename = Some B \<Longrightarrow>
   \<exists>envelope. FileNaClEncrypt P fs (Some r) filename compress key = Inr envelope"
  by (simp add: FileNaClEncrypt_def FileSHA256_def FileCompressible_def NaClNonce_def Let_def
      split: prod.splits)

lemma fs0_f: "fs0 ''f'' = Some [104, 105, 10]"
  by (simp add: fs0_def)

lemma NaClDecrypt_envelope:
  assumes "length nonce = NonceSize"
  shows "NaClDecrypt P \<lparr>elems = nonce @ box, spare = sp\<rparr> key =
     (case p_secretbox_Open P box nonce key of None \<Rightarrow> Fail ErrCouldNotDecryptBody
      | Some payload \<Rightarrow>
     (case xdr_decode_Header payload of None \<Rightarrow> Fail ErrXDR
      | Some (mh, r) \<Rightarrow>
          if h_Compression mh = CompNone then Ok (mh, r)
          else if h_Compression mh = CompGZIP then
            (case p_pgzip_Reader P r of None \<Rightarrow> Fail ErrGzip
             | Some (cleartext, e) \<Rightarrow>
                 if e = GzEOF then Ok (mh, cleartext) else Fail ErrGzip)
          else Fail ErrInvalidCompression))"
  using assms
  by (simp add: NaClDecrypt_def reslice_def reslice_from_def array_of_id)

text \<open>
  C1. Opening what \<open>FileNaClEncrypt\<close> sealed, with the same key, returns the file's
  bytes and a header whose size is the length of the file and whose digest is its
  SHA-256, with and without compression and on either side of the 1 MiB threshold that
  selects the parallel gzip writer; the spare capacity of the slice does not matter.
\<close>

theorem seal_open_roundtrip:
  assumes sb: "secretbox_ok P" and gz: "gzip_ok P" and sha: "sha256_ok P" and pr: "probe_ok P"
    and fl: "fs filename = Some B"
  shows "\<exists>envelope. FileNaClEncrypt P fs (Some r) filename compress key = Inr envelope \<and>
           (\<forall>sp. \<exists>h. NaClDecrypt P \<lparr>elems = envelope, spare = sp\<rparr> key = Ok (h, B)
                 \<and> h_Size h = of_nat (length B)
                 \<and> (length B < 2 ^ 64 \<longrightarrow> unat (h_Size h) = length B)
                 \<and> h_Digest h = p_sha256 P B)"
proof -
  obtain mime probed where probe: "p_probe P B = (mime, probed)" by (cases "p_probe P B")
  define comp where "comp = (if compress then probed else False)"
  define h where "h = \<lparr>h_Version = 1,
      h_Compression = (if compress \<and> probed then CompGZIP else CompNone),
      h_Size = of_nat (length B), h_Digest = p_sha256 P B, h_MimeType = mime\<rparr>"
  define body where "body = (if comp then
                   (if 1024 * 1024 < length B
                    then p_pgzip_Writer P [GzWrite B, GzClose]
                    else p_gzip_Writer P [GzWrite B, GzClose])
                 else B)"
  define nonce where "nonce = array_of NonceSize r"
  define envelope where "envelope = nonce @ p_secretbox_Seal P (xdr_Header h @ body) nonce key"
  have enc: "FileNaClEncrypt P fs (Some r) filename compress key = Inr envelope"
    by (simp add: FileNaClEncrypt_def FileSHA256_def FileCompressible_def NaClNonce_def fl probe
        Let_def envelope_def h_def body_def nonce_def comp_def)
  have ln: "length nonce = NonceSize" by (simp add: nonce_def length_array_of)
  have "length mime < 2 ^ 32" using pr probe by (auto simp: probe_ok_def dest: spec[of _ B])
  then have hdr: "xdr_decode_Header (xdr_Header h @ body) = Some (h, body)"
    using sha by (intro xdr_Header_roundtrip) (auto simp: h_def length_Comp sha256_ok_def)
  have opn: "p_secretbox_Open P (p_secretbox_Seal P (xdr_Header h @ body) nonce key) nonce key
      = Some (xdr_Header h @ body)"
    using sb by (simp add: secretbox_ok_def)
  have rd: "comp \<Longrightarrow> p_pgzip_Reader P body = Some (B, GzEOF)"
    using gz by (simp add: body_def gzip_ok_def)
  have cmp: "h_Compression h = (if comp then CompGZIP else CompNone)"
    by (auto simp: h_def comp_def)
  have dec: "NaClDecrypt P \<lparr>elems = envelope, spare = sp\<rparr> key = Ok (h, B)" for sp
  proof (cases comp)
    case True
    then show ?thesis
      unfolding envelope_def
      by (simp add: NaClDecrypt_envelope[OF ln] opn hdr cmp rd CompNone_neq_CompGZIP[symmetric])
  next
    case False
    then have "body = B" by (simp add: body_def)
    with False show ?thesis
      using opn hdr unfolding envelope_def
      by (simp add: NaClDecrypt_envelope[OF ln] cmp)
  qed
  have sz: "h_Size h = of_nat (length B)" and dg: "h_Digest h = p_sha256 P B"
    by (simp_all add: h_def)
  have un: "length B < 2 ^ 64 \<Longrightarrow> unat (h_Size h) = length B"
    by (simp add: h_def unat_of_nat)
  from enc dec sz dg un show ?thesis by blast
qed

theorem seal_open_roundtrip_witness:
  "\<exists>envelope h.
      FileNaClEncrypt stub_prims fs0 (Some (replicate 24 7)) ''f'' True (Data keys0) = Inr envelope
    \<and> NaClDecrypt stub_prims \<lparr>elems = envelope, spare = [0, 0]\<rparr> (Data keys0)
        = Ok (h, [104, 105, 10])
    \<and> h_Size h = 3 \<and> unat (h_Size h) = 3 \<and> h_Digest h = stub_sha256 [104, 105, 10]"
proof -
  from seal_open_roundtrip[where fs = fs0 and filename = "''f''" and r = "replicate 24 7"
      and compress = True and key = "Data keys0",
      OF stub_secretbox_ok stub_gzip_ok stub_sha256_ok stub_probe_ok fs0_f]
  obtain envelope where e: "FileNaClEncrypt stub_prims fs0
        (Some (replicate 24 7)) ''f'' True (Data keys0) = Inr envelope"
    and d: "\<forall>sp. \<exists>h. NaClDecrypt stub_prims \<lparr>elems = envelope, spare = sp\<rparr> (Data keys0)
        = Ok (h, [104, 105, 10])
      \<and> h_Size h = of_nat (length [104, 105, 10::byte])
      \<and> (length [104, 105, 10::byte] < 2 ^ 64 \<longrightarrow> unat (h_Size h) = length [104, 105, 10::byte])
      \<and> h_Digest h = p_sha256 stub_prims [104, 105, 10]"
    by blast
  from d obtain h where "NaClDecrypt stub_prims \<lparr>elems = envelope, spare = [0, 0]\<rparr> (Data keys0)
        = Ok (h, [104, 105, 10])" "h_Size h = 3" "unat (h_Size h) = 3"
        "h_Digest h = stub_sha256 [104, 105, 10]"
    by (auto simp: stub_prims_def dest!: spec[of _ "[0, 0]"])
  with e show ?thesis by blast
qed

text \<open>
  C6. An envelope sealed under one key and opened under another: when the box does not
  open under a wrong key, \<open>NaClDecrypt\<close> returns "could not decrypt body" and nothing
  else, no header and no bytes.
\<close>

theorem wrong_key_fails:
  assumes "secretbox_ideal P" "length k = KeySize" "length k' = KeySize" "k \<noteq> k'"
    and "FileNaClEncrypt P fs rnd filename compress k = Inr envelope"
  shows "NaClDecrypt P \<lparr>elems = envelope, spare = sp\<rparr> k' = Fail ErrCouldNotDecryptBody"
proof -
  obtain r b where env0:
    "envelope = array_of NonceSize r @ p_secretbox_Seal P b (array_of NonceSize r) k"
    using FileNaClEncrypt_shape[OF assms(5)] by blast
  define nonce where "nonce = array_of NonceSize r"
  have ln: "length nonce = NonceSize" by (simp add: nonce_def length_array_of)
  have env: "envelope = nonce @ p_secretbox_Seal P b nonce k" using env0 by (simp add: nonce_def)
  have "p_secretbox_Open P (p_secretbox_Seal P b nonce k) nonce k' = None"
    using assms(1-4) by (simp add: secretbox_ideal_def)
  then show ?thesis
    by (simp add: env NaClDecrypt_envelope[OF ln])
qed

theorem wrong_key_fails_witness:
  "\<exists>envelope.
      FileNaClEncrypt stub_prims fs0 (Some (replicate 24 7)) ''f'' False (Data keys0) = Inr envelope
    \<and> NaClDecrypt stub_prims \<lparr>elems = envelope, spare = []\<rparr> (Data keys1)
        = Fail ErrCouldNotDecryptBody"
proof -
  have l0: "length (Data keys0) = KeySize" and l1: "length (Data keys1) = KeySize"
    and ne: "Data keys0 \<noteq> Data keys1"
    by (simp_all add: keys0_def keys1_def KeySize_def)
  obtain envelope where e: "FileNaClEncrypt stub_prims fs0
        (Some (replicate 24 7)) ''f'' False (Data keys0) = Inr envelope"
    using FileNaClEncrypt_succeeds[where fs = fs0 and filename = "''f''", OF fs0_f] by blast
  from wrong_key_fails[OF stub_secretbox_ideal l0 l1 ne e] e show ?thesis by blast
qed

text \<open>
  C9. A blob shorter than its fixed prefix. A body of fewer than 24 bytes makes
  \<open>NaClDecrypt\<close> panic: at \<open>body[:NonceSize]\<close> when the capacity is short too, at
  \<open>body[NonceSize:]\<close> otherwise. A blob of fewer than 56 bytes makes \<open>KeysDecrypt\<close>
  panic once \<open>scrypt.Key\<close> has accepted its parameters (it is called between the slice
  expressions), and is in no case reported as "could not decrypt".
\<close>

theorem short_blob_panics:
  "(length (elems body) < 24 \<longrightarrow> NaClDecrypt P body key = Panic) \<and>
   (length (elems blob) < 56 \<longrightarrow> (\<forall>salt. p_scrypt_Key P password salt N r p KeySize \<noteq> None)
        \<longrightarrow> KeysDecrypt P zs password N r p blob = Panic) \<and>
   (length (elems blob) < 56 \<longrightarrow> KeysDecrypt P zs password N r p blob \<noteq> Fail ErrCouldNotDecrypt)"
  by (auto simp: NaClDecrypt_def KeysDecrypt_def reslice_def reslice_from_def KeySize_def
      NonceSize_def Let_def split: option.splits)

theorem short_blob_panics_witness:
  "NaClDecrypt stub_prims \<lparr>elems = [1, 2, 3], spare = replicate 40 0\<rparr> (Data keys0) = Panic
   \<and> KeysDecrypt stub_prims (\<lambda>i. False) [112, 119] 32768 16 2
        \<lparr>elems = replicate 55 9, spare = replicate 40 0\<rparr> = Panic
   \<and> KeysDecrypt stub_prims (\<lambda>i. False) [112, 119] 32768 16 2
        \<lparr>elems = replicate 55 9, spare = replicate 40 0\<rparr> \<noteq> Fail ErrCouldNotDecrypt"
  using short_blob_panics[of "\<lparr>elems = [1, 2, 3], spare = replicate 40 0\<rparr>" stub_prims
      "Data keys0" "\<lparr>elems = replicate 55 9, spare = replicate 40 0\<rparr>" "[112, 119]"
      32768 16 2 "\<lambda>i. False"]
  by (simp add: stub_prims_def stub_scrypt_Key_def)

section \<open>Extraction\<close>

lemma hex_zero: "hex_EncodeToString (replicate n 0) = replicate (2 * n) (CHR ''0'')"
  by (induction n) (simp_all add: hex_EncodeToString_def hexdigit_def)

lemma NaClDecrypt_plain:
  assumes "secretbox_ok P" "length nonce = NonceSize" "h_Compression h = CompNone"
    "length (h_Digest h) = 32" "length (h_MimeType h) < 2 ^ 32"
  shows "NaClDecrypt P \<lparr>elems = nonce @ p_secretbox_Seal P (xdr_Header h @ body) nonce key,
                         spare = sp\<rparr> key = Ok (h, body)"
proof -
  have "xdr_decode_Header (xdr_Header h @ body) = Some (h, body)"
    using assms by (intro xdr_Header_roundtrip) (simp_all add: length_Comp)
  then show ?thesis
    using assms by (simp add: NaClDecrypt_envelope secretbox_ok_def)
qed

lemma NaClDecrypt_bad_object:
  "NaClDecrypt stub_prims (slice_of bad_object) (Data keys0) = Ok (bad_header, [104, 105, 10])"
proof -
  have "NaClDecrypt stub_prims
          \<lparr>elems = replicate 24 7 @ p_secretbox_Seal stub_prims
                      (xdr_Header bad_header @ [104, 105, 10]) (replicate 24 7) (Data keys0),
           spare = []\<rparr> (Data keys0) = Ok (bad_header, [104, 105, 10])"
    by (rule NaClDecrypt_plain[OF stub_secretbox_ok]) (simp_all add: bad_header_def NonceSize_def)
  then show ?thesis
    by (simp add: slice_of_def bad_object_def stub_prims_def)
qed

text \<open>
  C2, as the code has it. \<open>downloadPayload\<close> drops the header \<open>NaClDecrypt\<close> returns:
  whatever the header says, the body goes to a temporary file that is renamed into
  place, and the calls made are the lookup, the download, and those three of the file
  system. Neither the body's SHA-256 nor its length is compared with the header.
\<close>

theorem downloadPayload_writes_unverified:
  assumes "e_GetMetadataFS E (''/data/'' @ hex_EncodeToString ident) = Inr asset"
    and "e_DownloadJSON E asset = Inr body"
    and "NaClDecrypt P body (Data (a_keys a)) = Ok (hdr, payload)"
    and "e_TempFile E (a_root a) = Some out"
    and "e_Write E out payload = None"
    and "e_Rename E out (p_path_Join P (a_root a) fullpath) = None"
  shows "downloadPayload P E a fullpath ident =
           (Ok (), a\<lparr>a_trace := a_trace a @
              [EvFind (''/data/'' @ hex_EncodeToString ident), EvDownload asset,
               EvTempFile (a_root a), EvWrite out payload,
               EvRename out (p_path_Join P (a_root a) fullpath)]\<rparr>)"
  using assms by (simp add: downloadPayload_def Let_def did_def)

lemma env_of_simps:
  "e_GetMetadataFS (env_of files up (Some (name, b)) pw) name = Inr ''asset-1''"
  "e_DownloadJSON (env_of files up (Some (name, b)) pw) ''asset-1'' = Inr b"
  "e_TempFile (env_of files up obj pw) d = Some (d @ ''/acdb001'')"
  "e_Write (env_of files up obj pw) f x = None"
  "e_Rename (env_of files up obj pw) f g = None"
  "e_MkdirAll (env_of files up obj pw) d = None"
  "e_Create (env_of files up obj pw) d = None"
  "e_UploadJSON (env_of files up obj pw) parent n x = up"
  "e_fs (env_of files up obj pw) k = files"
  "e_rand (env_of files up obj pw) k = Some (replicate 32 (of_nat k))"
  "e_ReadPassword (env_of files up obj pw) = pw"
  "e_WritePassword (env_of files up obj pw) p = None"
  "e_GetMetadataFS (env_of files up None pw) q = Inl ErrNotFound"
  by (simp_all add: env_of_def)

theorem downloadPayload_writes_unverified_witness:
  "downloadPayload stub_prims
      (env_of fs0 None (Some (''/data/'' @ hex_EncodeToString (replicate 32 1),
                              slice_of bad_object)) (Inl ErrNotExist))
      acdb0 ''f'' (replicate 32 1)
   = (Ok (), acdb0\<lparr>a_trace := a_trace acdb0 @
        [EvFind (''/data/'' @ hex_EncodeToString (replicate 32 1)), EvDownload ''asset-1'',
         EvTempFile (a_root acdb0), EvWrite (a_root acdb0 @ ''/acdb001'') [104, 105, 10],
         EvRename (a_root acdb0 @ ''/acdb001'')
           (p_path_Join stub_prims (a_root acdb0) ''f'')]\<rparr>)"
proof -
  have k: "a_keys acdb0 = keys0" by (simp add: acdb0_def)
  have d: "NaClDecrypt stub_prims (slice_of bad_object) (Data (a_keys acdb0))
      = Ok (bad_header, [104, 105, 10])"
    using NaClDecrypt_bad_object by (simp add: k)
  show ?thesis
    by (rule downloadPayload_writes_unverified[OF _ _ d]) (simp_all add: env_of_simps)
qed

text \<open>
  The claim as stated fails: the object \<open>bad_object\<close> opens under the data key to a
  header with digest zero and size 99 and to a body of three bytes whose SHA-256 is not
  zero; \<open>downloadPayload\<close> returns without an error and its last call renames the
  temporary file into place.
\<close>

theorem corrupt_payload_counterexample:
  "NaClDecrypt stub_prims (slice_of bad_object) (Data (a_keys acdb0))
      = Ok (bad_header, [104, 105, 10])
   \<and> p_sha256 stub_prims [104, 105, 10] \<noteq> h_Digest bad_header
   \<and> unat (h_Size bad_header) \<noteq> length [104, 105, 10 :: byte]
   \<and> fst (downloadPayload stub_prims
        (env_of fs0 None (Some (''/data/'' @ hex_EncodeToString (replicate 32 1),
                                slice_of bad_object)) (Inl ErrNotExist))
        acdb0 ''f'' (replicate 32 1)) = Ok ()
   \<and> last (a_trace (snd (downloadPayload stub_prims
        (env_of fs0 None (Some (''/data/'' @ hex_EncodeToString (replicate 32 1),
                                slice_of bad_object)) (Inl ErrNotExist))
        acdb0 ''f'' (replicate 32 1))))
      = EvRename ''out/acdb001'' ''out/f''"
proof -
  have k: "a_keys acdb0 = keys0" by (simp add: acdb0_def)
  have d: "NaClDecrypt stub_prims (slice_of bad_object) (Data (a_keys acdb0))
      = Ok (bad_header, [104, 105, 10])"
    by (simp add: k NaClDecrypt_bad_object)
  have "replicate 31 (0 :: byte) @ [3] \<noteq> replicate 32 0" by code_simp
  then have s: "p_sha256 stub_prims [104, 105, 10] \<noteq> h_Digest bad_header"
    by (simp add: stub_prims_def stub_sha256_def bad_header_def)
  have z: "unat (h_Size bad_header) \<noteq> length [104, 105, 10 :: byte]"
    by (simp add: bad_header_def)
  have r: "a_root acdb0 = ''out''" by (simp add: acdb0_def)
  have j: "p_path_Join stub_prims ''out'' ''f'' = ''out/f''" by (simp add: stub_prims_def)
  show ?thesis
    using d s z
    by (simp add: downloadPayload_def Let_def did_def env_of_simps r j)
qed

text \<open>
  C10. With the parent directory in place, \<open>extract\<close> in extract mode creates the file
  locally exactly when the entry's size is 0, whatever its digest, and then makes no call
  on the store; for any other size its first call after \<open>MkdirAll\<close> is the lookup of
  \<open>/data/\<close> followed by the hex of the entry's digest, 64 zeros for the zero digest, and
  it creates nothing.
\<close>

theorem extract_size_decides:
  assumes "a_mode a = modeExtract"
    and "e_MkdirAll E (p_path_Join P (a_root a) (p_path_Dir P (f_Name e))) = None"
  shows "(f_Size e = 0 \<longrightarrow>
            (\<exists>evs. a_trace (snd (extract_File P E a e)) =
                a_trace a @ [EvMkdirAll (p_path_Join P (a_root a) (p_path_Dir P (f_Name e))),
                             EvCreate (p_path_Join P (a_root a) (f_Name e))] @ evs
              \<and> list_all (\<lambda>ev. \<not> is_store_call ev) evs))
       \<and> (f_Size e \<noteq> 0 \<longrightarrow>
            (\<exists>evs. a_trace (snd (extract_File P E a e)) =
                a_trace a @ [EvMkdirAll (p_path_Join P (a_root a) (p_path_Dir P (f_Name e))),
                             EvFind (''/data/'' @ hex_EncodeToString (f_Digest e))] @ evs
              \<and> list_all (\<lambda>ev. \<not> is_create ev) evs))
       \<and> (f_Size e \<noteq> 0 \<and> f_Digest e = replicate 32 0 \<longrightarrow>
            (\<exists>evs. a_trace (snd (extract_File P E a e)) =
                a_trace a @ [EvMkdirAll (p_path_Join P (a_root a) (p_path_Dir P (f_Name e))),
                             EvFind (''/data/'' @ replicate 64 (CHR ''0''))] @ evs))"
proof -
  have perms: "\<exists>evs. a_trace (snd (restore_perms E b p e)) = a_trace b @ evs
      \<and> list_all (\<lambda>ev. \<not> is_store_call ev) evs \<and> list_all (\<lambda>ev. \<not> is_create ev) evs" for b p
    by (auto simp: restore_perms_def Let_def did_def split: option.splits)
  have dl: "\<exists>evs. a_trace (snd (downloadPayload P E b n i)) =
        a_trace b @ [EvFind (''/data/'' @ hex_EncodeToString i)] @ evs
      \<and> list_all (\<lambda>ev. \<not> is_create ev) evs" for b n i
    by (auto simp: downloadPayload_def Let_def did_def split: option.splits sum.splits
        outcome.splits prod.splits)
  let ?dir = "p_path_Join P (a_root a) (p_path_Dir P (f_Name e))"
  let ?a1 = "did (EvMkdirAll ?dir) a"
  have zero: "f_Size e = 0 \<Longrightarrow>
      \<exists>evs. a_trace (snd (extract_File P E a e)) =
                a_trace a @ [EvMkdirAll ?dir, EvCreate (p_path_Join P (a_root a) (f_Name e))] @ evs
              \<and> list_all (\<lambda>ev. \<not> is_store_call ev) evs"
    using assms perms[of "did (EvCreate (p_path_Join P (a_root a) (f_Name e))) ?a1"
        "p_path_Join P (a_root a) (f_Name e)"]
    by (auto simp: extract_File_def Let_def did_def split: option.splits)
  have nonzero: "f_Size e \<noteq> 0 \<Longrightarrow>
      \<exists>evs. a_trace (snd (extract_File P E a e)) =
                a_trace a @ [EvMkdirAll ?dir, EvFind (''/data/'' @ hex_EncodeToString (f_Digest e))] @ evs
              \<and> list_all (\<lambda>ev. \<not> is_create ev) evs"
  proof -
    assume nz: "f_Size e \<noteq> 0"
    obtain res a2 where d: "downloadPayload P E ?a1 (f_Name e) (f_Digest e) = (res, a2)"
      by (cases "downloadPayload P E ?a1 (f_Name e) (f_Digest e)")
    from dl[of ?a1 "f_Name e" "f_Digest e"] d obtain evs where
      t2: "a_trace a2 = a_trace ?a1 @ [EvFind (''/data/'' @ hex_EncodeToString (f_Digest e))] @ evs"
      and nc: "list_all (\<lambda>ev. \<not> is_create ev) evs" by auto
    from perms[of a2 "p_path_Join P (a_root a) (f_Name e)"] obtain evs' where
      t3: "a_trace (snd (restore_perms E a2 (p_path_Join P (a_root a) (f_Name e)) e)) = a_trace a2 @ evs'"
      and nc': "list_all (\<lambda>ev. \<not> is_create ev) evs'" by auto
    show ?thesis
      using assms nz d t2 nc t3 nc'
      by (cases res) (auto simp: extract_File_def Let_def did_def)
  qed
  from zero nonzero show ?thesis
    using hex_zero[of 32] by auto
qed

theorem extract_size_decides_witness:
  "(\<exists>evs. a_trace (snd (extract_File stub_prims (env_of fs0 None None (Inl ErrNotExist)) acdb0
              (File_entry ''f'' (info0\<lparr>fi_Size := 0\<rparr>) ''text/plain'' (Some (replicate 32 9))))) =
            [EvMkdirAll ''out/.'', EvCreate ''out/f''] @ evs
          \<and> list_all (\<lambda>ev. \<not> is_store_call ev) evs)
   \<and> (\<exists>evs. a_trace (snd (extract_File stub_prims (env_of fs0 None None (Inl ErrNotExist)) acdb0
              (File_entry ''f'' info0 ''text/plain'' None))) =
            [EvMkdirAll ''out/.'', EvFind (''/data/'' @ replicate 64 (CHR ''0''))] @ evs
          \<and> list_all (\<lambda>ev. \<not> is_create ev) evs)"
proof -
  have m: "a_mode acdb0 = modeExtract" and r: "a_root acdb0 = ''out''" and t: "a_trace acdb0 = []"
    by (simp_all add: acdb0_def)
  have j: "p_path_Join stub_prims x y = x @ ''/'' @ y" "p_path_Dir stub_prims x = ''.''" for x y
    by (simp_all add: stub_prims_def)
  have mk: "e_MkdirAll (env_of fs0 None None (Inl ErrNotExist))
      (p_path_Join stub_prims (a_root acdb0) (p_path_Dir stub_prims (f_Name e))) = None" for e
    by (simp add: env_of_simps)
  have z: "hex_EncodeToString (replicate 32 0) = replicate 64 (CHR ''0'')"
    using hex_zero[of 32] by simp
  show ?thesis
    using extract_size_decides[OF m mk,
        of "File_entry ''f'' (info0\<lparr>fi_Size := 0\<rparr>) ''text/plain'' (Some (replicate 32 9))"]
      extract_size_decides[OF m mk, of "File_entry ''f'' info0 ''text/plain'' None"]
    by (simp add: File_entry_def info0_def r t j z)
qed

section \<open>The walk\<close>

lemma IsRegular_not_dir_symlink:
  assumes "IsRegular m"
  shows "m AND ModeDir \<noteq> ModeDir" "m AND ModeSymlink \<noteq> ModeSymlink"
proof -
  have d: "ModeType AND ModeDir = ModeDir" and l: "ModeType AND ModeSymlink = ModeSymlink"
    by (simp_all add: ModeType_def ModeDir_def ModeSymlink_def ModeNamedPipe_def ModeSocket_def
        ModeDevice_def)
  have z: "m AND ModeType = 0" using assms by (simp add: IsRegular_def)
  have "m AND ModeDir = (m AND ModeType) AND ModeDir" by (simp add: d and.assoc)
  then have "m AND ModeDir = 0" by (simp add: z)
  then show "m AND ModeDir \<noteq> ModeDir" by (simp add: ModeDir_def)
  have "m AND ModeSymlink = (m AND ModeType) AND ModeSymlink" by (simp add: l and.assoc)
  then have "m AND ModeSymlink = 0" by (simp add: z)
  then show "m AND ModeSymlink \<noteq> ModeSymlink" by (simp add: ModeSymlink_def)
qed

lemma gz_payload_append: "gz_payload (xs @ ys) = gz_payload xs @ gz_payload ys"
  by (induction xs rule: gz_payload.induct) auto

lemma records_of_Encode:
  "\<not> me_broken m \<Longrightarrow> me_Encode m d = (None, m') \<Longrightarrow> records_of m' = records_of m @ d"
  by (auto simp: me_Encode_def records_of_def bw_Write_def gz_payload_append split: writer.splits)

lemma me_Encode_ok:
  "\<not> me_broken m \<Longrightarrow> me_Encode m d = (None, m\<lparr>me_bw := bw_Write (me_bw m) d\<rparr>)"
  by (simp add: me_Encode_def)

lemma me_File_ok:
  assumes "\<not> me_broken m"
  shows "fst (me_File m path fi mime dg) = None"
    and "records_of (snd (me_File m path fi mime dg))
          = records_of m @ TypeFile @ xdr_File (File_entry path fi mime dg)"
    and "\<not> me_broken (snd (me_File m path fi mime dg))"
  using assms
  by (auto simp: me_File_def me_Encode_def records_of_def bw_Write_def gz_payload_append
      split: writer.splits)

lemma walk_switch_regular:
  assumes reg: "IsRegular (fi_Mode info)" and nz: "fi_Size info \<noteq> 0"
    and f0: "e_fs E 0 path = Some B" and f1: "e_fs E 1 path = Some B"
    and rnd: "e_rand E 0 = Some r"
  shows "\<exists>payload.
      FileNaClEncrypt P (e_fs E 1) (Some r) path (a_compress a) (Data (a_keys a)) = Inr payload
    \<and> walk_switch P E a path info =
        (case FileCompressible P (e_fs E 2) path of
           Inl e \<Rightarrow> SwBreak None (Some (p_hmac_sha256 P (Dedup (a_keys a)) B)) payload (a_me a)
         | Inr (mime, c) \<Rightarrow>
             SwBreak None (Some (p_hmac_sha256 P (Dedup (a_keys a)) B)) payload
               (snd (me_File (a_me a) path info mime
                       (Some (p_hmac_sha256 P (Dedup (a_keys a)) B)))))"
proof -
  obtain payload where
    p: "FileNaClEncrypt P (e_fs E 1) (Some r) path (a_compress a) (Data (a_keys a)) = Inr payload"
    using FileNaClEncrypt_succeeds[where fs = "e_fs E 1" and filename = path, OF f1] by blast
  have "walk_switch P E a path info =
        (case FileCompressible P (e_fs E 2) path of
           Inl e \<Rightarrow> SwBreak None (Some (p_hmac_sha256 P (Dedup (a_keys a)) B)) payload (a_me a)
         | Inr (mime, c) \<Rightarrow>
             SwBreak None (Some (p_hmac_sha256 P (Dedup (a_keys a)) B)) payload
               (snd (me_File (a_me a) path info mime
                       (Some (p_hmac_sha256 P (Dedup (a_keys a)) B)))))"
    using IsRegular_not_dir_symlink[OF reg] reg nz p
    by (simp add: walk_switch_def FileHMACSHA256_def f0 rnd split: sum.splits prod.splits)
  with p show ?thesis by blast
qed

lemma walk_upload:
  assumes "walk_switch P E a path info = SwBreak None (Some dg) payload m"
  shows "walk P E a path info None =
      (let a2 = did (EvUpload (a_dataID a) (hex_EncodeToString dg) payload) (a\<lparr>a_me := m\<rparr>)
       in case e_UploadJSON E (a_dataID a) (hex_EncodeToString dg) payload of
           None \<Rightarrow> verbose_line a2 info path ('' new '' @ ''=> '' @ hex_EncodeToString dg)
         | Some (ErrCombined c) \<Rightarrow>
             if c \<noteq> StatusConflict then say (MsgSkipping path (ErrCombined c)) a2
             else verbose_line a2 info path ('' deduped '' @ ''=> '' @ hex_EncodeToString dg)
         | Some e \<Rightarrow> say (MsgShouldNotHappen e) a2)"
  by (simp add: walk_def assms Let_def)

lemma hex_lowercase: "set (hex_EncodeToString bs) \<subseteq> set ''0123456789abcdef''"
proof -
  have "hexdigit n \<in> set ''0123456789abcdef''" for n
    unfolding hexdigit_def by (rule nth_mem) simp
  then show ?thesis
    by (auto simp: hex_EncodeToString_def)
qed

text \<open>
  C5. A non-empty regular file that can be read, with a manifest sink that takes the
  writes. The entry appended to the manifest carries \<open>HMAC-SHA256(k_dedup, bytes)\<close>; the
  one upload the step attempts is made under the data folder with the lowercase hex of
  that same value as its name; and when the store answers that upload with Conflict, the
  step prints no "skipping" line (only the verbose line, marked deduped), makes no second
  upload, and the entry is in the manifest.
\<close>

theorem walk_entry_digest_is_fingerprint:
  assumes reg: "IsRegular (fi_Mode info)" and nz: "fi_Size info \<noteq> 0"
    and f0: "e_fs E 0 path = Some B" and f1: "e_fs E 1 path = Some B"
    and f2: "e_fs E 2 path = Some B"
    and rnd: "e_rand E 0 = Some r"
    and ok: "\<not> me_broken (a_me a)"
  shows "\<exists>payload.
      records_of (a_me (walk P E a path info None)) =
        records_of (a_me a) @ TypeFile @
          xdr_File (File_entry path info (fst (p_probe P B))
                      (Some (p_hmac_sha256 P (Dedup (a_keys a)) B)))
    \<and> f_Digest (File_entry path info (fst (p_probe P B))
                  (Some (p_hmac_sha256 P (Dedup (a_keys a)) B)))
        = p_hmac_sha256 P (Dedup (a_keys a)) B
    \<and> a_trace (walk P E a path info None) =
        a_trace a @ [EvUpload (a_dataID a)
                       (hex_EncodeToString (p_hmac_sha256 P (Dedup (a_keys a)) B)) payload]
    \<and> set (hex_EncodeToString (p_hmac_sha256 P (Dedup (a_keys a)) B))
        \<subseteq> set ''0123456789abcdef''
    \<and> (e_UploadJSON E (a_dataID a)
          (hex_EncodeToString (p_hmac_sha256 P (Dedup (a_keys a)) B)) payload
          = Some (ErrCombined StatusConflict)
        \<longrightarrow> a_out (walk P E a path info None) =
              a_out a @ (if a_verbose a
                         then [MsgVerbose (fi_Mode info) (fi_Size info) path
                                 ('' deduped '' @ ''=> '' @
                                  hex_EncodeToString (p_hmac_sha256 P (Dedup (a_keys a)) B))]
                         else []))"
proof -
  let ?dg = "p_hmac_sha256 P (Dedup (a_keys a)) B"
  let ?m = "snd (me_File (a_me a) path info (fst (p_probe P B)) (Some ?dg))"
  obtain mime c where pb: "p_probe P B = (mime, c)" by (cases "p_probe P B")
  have fc: "FileCompressible P (e_fs E 2) path = Inr (mime, c)"
    by (simp add: FileCompressible_def f2 pb)
  obtain payload where
    sw: "walk_switch P E a path info = SwBreak None (Some ?dg) payload ?m"
    using walk_switch_regular[OF reg nz f0 f1 rnd, of P a]
    by (auto simp: fc pb)
  have rec: "records_of ?m = records_of (a_me a) @ TypeFile @
      xdr_File (File_entry path info (fst (p_probe P B)) (Some ?dg))"
    using me_File_ok(2)[OF ok] by simp
  have w: "walk P E a path info None =
      (let a2 = did (EvUpload (a_dataID a) (hex_EncodeToString ?dg) payload) (a\<lparr>a_me := ?m\<rparr>)
       in case e_UploadJSON E (a_dataID a) (hex_EncodeToString ?dg) payload of
           None \<Rightarrow> verbose_line a2 info path ('' new '' @ ''=> '' @ hex_EncodeToString ?dg)
         | Some (ErrCombined c) \<Rightarrow>
             if c \<noteq> StatusConflict then say (MsgSkipping path (ErrCombined c)) a2
             else verbose_line a2 info path ('' deduped '' @ ''=> '' @ hex_EncodeToString ?dg)
         | Some e \<Rightarrow> say (MsgShouldNotHappen e) a2)"
    by (rule walk_upload[OF sw])
  have 1: "records_of (a_me (walk P E a path info None)) = records_of ?m"
    by (auto simp: w Let_def did_def say_def verbose_line_def split: option.splits error.splits)
  have 2: "a_trace (walk P E a path info None) =
      a_trace a @ [EvUpload (a_dataID a) (hex_EncodeToString ?dg) payload]"
    by (auto simp: w Let_def did_def say_def verbose_line_def split: option.splits error.splits)
  have 3: "e_UploadJSON E (a_dataID a) (hex_EncodeToString ?dg) payload
        = Some (ErrCombined StatusConflict)
      \<Longrightarrow> a_out (walk P E a path info None) =
              a_out a @ (if a_verbose a
                         then [MsgVerbose (fi_Mode info) (fi_Size info) path
                                 ('' deduped '' @ ''=> '' @ hex_EncodeToString ?dg)]
                         else [])"
    by (simp add: w Let_def did_def say_def verbose_line_def)
  have 4: "f_Digest (File_entry path info (fst (p_probe P B)) (Some ?dg)) = ?dg"
    by (simp add: File_entry_def)
  from 1 rec have one: "records_of (a_me (walk P E a path info None)) =
      records_of (a_me a) @ TypeFile @
        xdr_File (File_entry path info (fst (p_probe P B)) (Some ?dg))"
    by simp
  show ?thesis
    by (rule exI[of _ payload]) (intro conjI impI one 2 3 4 hex_lowercase)
qed

lemma info0_regular: "IsRegular (fi_Mode info0)" "fi_Size info0 \<noteq> 0"
  by (simp_all add: info0_def IsRegular_def ModeType_def ModeDir_def ModeSymlink_def
      ModeNamedPipe_def ModeSocket_def ModeDevice_def)

lemma acdb0_simps:
  "a_me acdb0 = NewEncoder False" "a_keys acdb0 = keys0" "a_dataID acdb0 = ''data-id''"
  "a_verbose acdb0 = False" "a_out acdb0 = []" "a_trace acdb0 = []" "a_compress acdb0 = False"
  "a_root acdb0 = ''out''" "a_mode acdb0 = modeExtract" "a_perms acdb0 = False"
  by (simp_all add: acdb0_def)

lemma probe_fs0: "p_probe stub_prims [104, 105, 10] = (''text/plain'', True)"
  by (simp add: stub_prims_def stub_probe_def)

theorem walk_entry_digest_is_fingerprint_witness:
  "\<exists>payload.
      records_of (a_me (walk stub_prims (env_of fs0 (Some (ErrCombined 409)) None (Inl ErrNotExist))
                          acdb0 ''f'' info0 None)) =
        records_of (a_me acdb0) @ TypeFile @
          xdr_File (File_entry ''f'' info0 ''text/plain''
                      (Some (stub_hmac_sha256 (Dedup keys0) [104, 105, 10])))
    \<and> a_trace (walk stub_prims (env_of fs0 (Some (ErrCombined 409)) None (Inl ErrNotExist))
                  acdb0 ''f'' info0 None) =
        [EvUpload ''data-id''
           (hex_EncodeToString (stub_hmac_sha256 (Dedup keys0) [104, 105, 10])) payload]
    \<and> a_out (walk stub_prims (env_of fs0 (Some (ErrCombined 409)) None (Inl ErrNotExist))
                acdb0 ''f'' info0 None) = []"
proof -
  have nb: "\<not> me_broken (a_me acdb0)" by (simp add: acdb0_simps NewEncoder_def)
  have f: "e_fs (env_of fs0 (Some (ErrCombined 409)) None (Inl ErrNotExist)) k ''f''
      = Some [104, 105, 10]" for k
    by (simp add: env_of_simps fs0_f)
  have r: "e_rand (env_of fs0 (Some (ErrCombined 409)) None (Inl ErrNotExist)) 0
      = Some (replicate 32 (of_nat 0))"
    by (simp add: env_of_simps)
  have h: "p_hmac_sha256 stub_prims = stub_hmac_sha256" by (simp add: stub_prims_def)
  show ?thesis
    using walk_entry_digest_is_fingerprint[OF info0_regular f f f r nb, of stub_prims]
    by (simp add: acdb0_simps env_of_simps probe_fs0 h StatusConflict_def)
qed

text \<open>
  C4, at two inputs. The store answers the upload of a readable file with status 500:
  the step prints "skipping", and the file's complete entry is in the manifest, written
  before the upload was tried. The file becomes unreadable between the sealing and the
  second MIME probe: the probe's error goes to the \<open>err\<close> of the inner scope, the step
  prints nothing, uploads the object and writes no entry.
\<close>

theorem walk_error_paths:
  "records_of (a_me (walk stub_prims (env_of fs0 (Some (ErrCombined 500)) None (Inl ErrNotExist))
                        acdb0 ''f'' info0 None)) =
      records_of (a_me acdb0) @ TypeFile @
        xdr_File (File_entry ''f'' info0 ''text/plain''
                    (Some (stub_hmac_sha256 (Dedup keys0) [104, 105, 10])))
   \<and> a_out (walk stub_prims (env_of fs0 (Some (ErrCombined 500)) None (Inl ErrNotExist))
               acdb0 ''f'' info0 None) = [MsgSkipping ''f'' (ErrCombined 500)]
   \<and> a_out (walk stub_prims
               ((env_of fs0 None None (Inl ErrNotExist))
                  \<lparr>e_fs := (\<lambda>k. if k < 2 then fs0 else (\<lambda>name. None))\<rparr>)
               acdb0 ''f'' info0 None) = []
   \<and> records_of (a_me (walk stub_prims
               ((env_of fs0 None None (Inl ErrNotExist))
                  \<lparr>e_fs := (\<lambda>k. if k < 2 then fs0 else (\<lambda>name. None))\<rparr>)
               acdb0 ''f'' info0 None)) = records_of (a_me acdb0)
   \<and> (\<exists>payload. a_trace (walk stub_prims
               ((env_of fs0 None None (Inl ErrNotExist))
                  \<lparr>e_fs := (\<lambda>k. if k < 2 then fs0 else (\<lambda>name. None))\<rparr>)
               acdb0 ''f'' info0 None) =
        [EvUpload ''data-id''
           (hex_EncodeToString (stub_hmac_sha256 (Dedup keys0) [104, 105, 10])) payload])"
proof -
  let ?E = "env_of fs0 (Some (ErrCombined 500)) None (Inl ErrNotExist)"
  let ?F = "(env_of fs0 None None (Inl ErrNotExist))
              \<lparr>e_fs := (\<lambda>k. if k < 2 then fs0 else (\<lambda>name. None))\<rparr>"
  let ?dg = "stub_hmac_sha256 (Dedup keys0) [104, 105, 10]"
  have nb: "\<not> me_broken (a_me acdb0)" by (simp add: acdb0_simps NewEncoder_def)
  have h: "p_hmac_sha256 stub_prims = stub_hmac_sha256" by (simp add: stub_prims_def)
  have fE: "e_fs ?E k ''f'' = Some [104, 105, 10]" for k by (simp add: env_of_simps fs0_f)
  have rE: "e_rand ?E 0 = Some (replicate 32 (of_nat 0))" by (simp add: env_of_simps)
  obtain payload where
    swE: "walk_switch stub_prims ?E acdb0 ''f'' info0 =
        SwBreak None (Some ?dg) payload
          (snd (me_File (a_me acdb0) ''f'' info0 ''text/plain'' (Some ?dg)))"
    using walk_switch_regular[OF info0_regular fE fE rE, of stub_prims acdb0]
    by (auto simp: FileCompressible_def fE probe_fs0 h acdb0_simps)
  have wE: "walk stub_prims ?E acdb0 ''f'' info0 None =
      say (MsgSkipping ''f'' (ErrCombined 500))
        (did (EvUpload ''data-id'' (hex_EncodeToString ?dg) payload)
           (acdb0\<lparr>a_me := snd (me_File (a_me acdb0) ''f'' info0 ''text/plain'' (Some ?dg))\<rparr>))"
    by (simp add: walk_upload[OF swE] env_of_simps Let_def StatusConflict_def acdb0_simps)
  have 1: "records_of (a_me (walk stub_prims ?E acdb0 ''f'' info0 None)) =
      records_of (a_me acdb0) @ TypeFile @ xdr_File (File_entry ''f'' info0 ''text/plain'' (Some ?dg))"
    using me_File_ok(2)[OF nb] by (simp add: wE say_def did_def)
  have 2: "a_out (walk stub_prims ?E acdb0 ''f'' info0 None) = [MsgSkipping ''f'' (ErrCombined 500)]"
    by (simp add: wE say_def did_def acdb0_simps)
  have fF: "e_fs ?F 0 ''f'' = Some [104, 105, 10]" "e_fs ?F 1 ''f'' = Some [104, 105, 10]"
    "e_fs ?F 2 ''f'' = None"
    by (simp_all add: fs0_f)
  have rF: "e_rand ?F 0 = Some (replicate 32 (of_nat 0))" by (simp add: env_of_simps)
  obtain payload' where
    swF: "walk_switch stub_prims ?F acdb0 ''f'' info0 = SwBreak None (Some ?dg) payload' (a_me acdb0)"
    using walk_switch_regular[OF info0_regular fF(1) fF(2) rF, of stub_prims acdb0]
    by (auto simp: FileCompressible_def fF h acdb0_simps)
  have wF: "walk stub_prims ?F acdb0 ''f'' info0 None =
      did (EvUpload ''data-id'' (hex_EncodeToString ?dg) payload') acdb0"
    by (simp add: walk_upload[OF swF] env_of_simps Let_def verbose_line_def acdb0_simps did_def)
  have 3: "a_out (walk stub_prims ?F acdb0 ''f'' info0 None) = []"
    by (simp add: wF did_def acdb0_simps)
  have 4: "records_of (a_me (walk stub_prims ?F acdb0 ''f'' info0 None)) = records_of (a_me acdb0)"
    by (simp add: wF did_def)
  have 5: "a_trace (walk stub_prims ?F acdb0 ''f'' info0 None) =
      [EvUpload ''data-id'' (hex_EncodeToString ?dg) payload']"
    by (simp add: wF did_def acdb0_simps)
  from 1 2 3 4 5 show ?thesis by blast
qed

section \<open>The manifest writer\<close>

lemma gz_ops_Encode:
  "GzClose \<notin> set (gz_ops (me_bw m)) \<Longrightarrow> GzClose \<notin> set (gz_ops (me_bw (snd (me_Encode m d))))"
  by (auto simp: me_Encode_def bw_Write_def split: writer.splits)

lemma gz_ops_step:
  "GzClose \<notin> set (gz_ops (me_bw m)) \<Longrightarrow> GzClose \<notin> set (gz_ops (me_bw (me_step ev rel m c)))"
proof (cases c)
  case (CallDir path fi)
  assume "GzClose \<notin> set (gz_ops (me_bw m))"
  then show ?thesis
    using gz_ops_Encode[of m TypeDir] gz_ops_Encode[of "snd (me_Encode m TypeDir)"]
    by (auto simp: CallDir me_Dir_def split: prod.splits option.splits)
next
  case (CallSymlink path fi)
  assume "GzClose \<notin> set (gz_ops (me_bw m))"
  then show ?thesis
    using gz_ops_Encode[of m TypeSymlink] gz_ops_Encode[of "snd (me_Encode m TypeSymlink)"]
    by (auto simp: CallSymlink me_Symlink_def split: prod.splits option.splits)
next
  case (CallFile path fi mime digest)
  assume "GzClose \<notin> set (gz_ops (me_bw m))"
  then show ?thesis
    using gz_ops_Encode[of m TypeFile] gz_ops_Encode[of "snd (me_Encode m TypeFile)"]
    by (auto simp: CallFile me_File_def split: prod.splits option.splits)
next
  case CallFlush
  assume "GzClose \<notin> set (gz_ops (me_bw m))"
  then show ?thesis
    by (auto simp: CallFlush me_Flush_def split: writer.splits)
qed

lemma gz_ops_run:
  "GzClose \<notin> set (gz_ops (me_bw m)) \<Longrightarrow> GzClose \<notin> set (gz_ops (me_bw (me_run ev rel calls m)))"
  unfolding me_run_def
  by (induction calls arbitrary: m) (simp_all add: gz_ops_step)

text \<open>
  C3, the writer's side. Whatever is called on the manifest writer, and in whatever order,
  its gzip writer is never given \<open>Close\<close>: \<open>Flush\<close> is the only finalizer and it is a
  sync flush. A compressed manifest of no entries is the header followed by what a gzip
  writer emits for a lone flush; \<open>FileNaClEncrypt\<close>, in the other package, does close
  its gzip writer.
\<close>

theorem manifest_gzip_never_closed:
  "GzClose \<notin> set (gz_ops (me_bw (me_run ev rel calls (NewEncoder compress))))
   \<and> sink_bytes P (me_Flush (NewEncoder True)) =
       xdr_MHeader \<lparr>m_Version = 1, m_Compression = CompGZIP\<rparr> @ p_gzip_Writer P [GzFlush]"
proof -
  have "GzClose \<notin> set (gz_ops (me_bw (NewEncoder compress)))"
    by (simp add: NewEncoder_def)
  then have "GzClose \<notin> set (gz_ops (me_bw (me_run ev rel calls (NewEncoder compress))))"
    by (rule gz_ops_run)
  moreover have "sink_bytes P (me_Flush (NewEncoder True)) =
       xdr_MHeader \<lparr>m_Version = 1, m_Compression = CompGZIP\<rparr> @ p_gzip_Writer P [GzFlush]"
    by (simp add: sink_bytes_def me_Flush_def NewEncoder_def)
  ultimately show ?thesis by simp
qed

section \<open>The key bundle\<close>

lemma racy_zero_all: "racy_zero (\<lambda>i. True) key = replicate (length key) 0"
  by (simp add: racy_zero_def map_replicate_const)

lemma racy_zero_none: "racy_zero (\<lambda>i. False) key = key"
  by (simp add: racy_zero_def map_nth)

lemma length_racy_zero: "length (racy_zero zs key) = length key"
  by (simp add: racy_zero_def)

lemma Keys_Encrypt_blob:
  assumes "p_scrypt_Key P password (array_of KeySize s) N r p KeySize = Some dk"
  shows "Keys_Encrypt P (Some s) (Some n) zs k password N r p =
     Inr (array_of KeySize s @ array_of NonceSize n @
          p_secretbox_Seal P (xdr_Keys k) (array_of NonceSize n)
            (racy_zero zs (array_of KeySize dk)))"
  using assms by (simp add: Keys_Encrypt_def NaClNonce_def Let_def)

lemma KeysDecrypt_blob:
  assumes "length salt = KeySize" "length nonce = NonceSize"
    and "p_scrypt_Key P password salt N r p KeySize = Some dk"
  shows "KeysDecrypt P zs password N r p \<lparr>elems = salt @ nonce @ box, spare = sp\<rparr> =
     (case p_secretbox_Open P box nonce (racy_zero zs (array_of KeySize dk)) of
        None \<Rightarrow> Fail ErrCouldNotDecrypt
      | Some ksXDR \<Rightarrow>
          (case xdr_decode_Keys ksXDR of None \<Rightarrow> Fail ErrCouldNotUnmarshal
           | Some (k, rest) \<Rightarrow> Ok k))"
  using assms
  by (simp add: KeysDecrypt_def reslice_def reslice_from_def array_of_id Let_def)

lemma xdr_Keys_decode: "keys_wf k \<Longrightarrow> xdr_decode_Keys (xdr_Keys k) = Some (k, [])"
  using xdr_Keys_roundtrip[of k "[]"] by simp

text \<open>
  With the zeroing goroutine out of the way (it runs after the key was used), the blob
  is \<open>salt(32) || nonce(24) || box\<close>, the box is sealed under the key \<open>scrypt.Key\<close>
  derives from the password and the salt, and unwrapping with the same password returns
  the bundle; a password whose derived key differs is refused as "could not decrypt".
\<close>

lemma keys_wrap_unwrap:
  assumes "secretbox_ok P" "keys_wf k"
    and "p_scrypt_Key P password (array_of KeySize s) N r p KeySize = Some dk"
  shows "\<exists>box. Keys_Encrypt P (Some s) (Some n) (\<lambda>i. False) k password N r p =
            Inr (array_of KeySize s @ array_of NonceSize n @ box)
          \<and> box = p_secretbox_Seal P (xdr_Keys k) (array_of NonceSize n) (array_of KeySize dk)
          \<and> KeysDecrypt P (\<lambda>i. False) password N r p
              \<lparr>elems = array_of KeySize s @ array_of NonceSize n @ box, spare = sp\<rparr> = Ok k"
  using assms
  by (simp add: Keys_Encrypt_blob KeysDecrypt_blob length_array_of racy_zero_none
      secretbox_ok_def xdr_Keys_decode)

lemma keys_unwrap_wrong_password:
  assumes "secretbox_ideal P"
    and "p_scrypt_Key P password (array_of KeySize s) N r p KeySize = Some dk"
    and "p_scrypt_Key P password' (array_of KeySize s) N r p KeySize = Some dk'"
    and "array_of KeySize dk \<noteq> array_of KeySize dk'"
    and "Keys_Encrypt P (Some s) (Some n) (\<lambda>i. False) k password N r p = Inr blob"
  shows "KeysDecrypt P (\<lambda>i. False) password' N r p \<lparr>elems = blob, spare = sp\<rparr>
           = Fail ErrCouldNotDecrypt"
proof -
  have b: "blob = array_of KeySize s @ array_of NonceSize n @
          p_secretbox_Seal P (xdr_Keys k) (array_of NonceSize n) (array_of KeySize dk)"
    using assms(5) by (simp add: Keys_Encrypt_blob[OF assms(2)] racy_zero_none)
  have "p_secretbox_Open P
          (p_secretbox_Seal P (xdr_Keys k) (array_of NonceSize n) (array_of KeySize dk))
          (array_of NonceSize n) (array_of KeySize dk') = None"
    using assms(1,4) by (simp add: secretbox_ideal_def length_array_of)
  then show ?thesis
    by (simp add: b KeysDecrypt_blob[OF _ _ assms(3)] length_array_of racy_zero_none)
qed

text \<open>
  When the goroutine zeroes the key before secretbox reads it, on both sides, the bundle
  is sealed and opened under the all-zero key whatever the passwords are.
\<close>

lemma keys_unwrap_zeroed:
  assumes "secretbox_ok P" "keys_wf k"
    and "p_scrypt_Key P password (array_of KeySize s) N r p KeySize = Some dk"
    and "p_scrypt_Key P password' (array_of KeySize s) N r p KeySize = Some dk'"
    and "Keys_Encrypt P (Some s) (Some n) (\<lambda>i. True) k password N r p = Inr blob"
  shows "KeysDecrypt P (\<lambda>i. True) password' N r p \<lparr>elems = blob, spare = sp\<rparr> = Ok k"
proof -
  have b: "blob = array_of KeySize s @ array_of NonceSize n @
          p_secretbox_Seal P (xdr_Keys k) (array_of NonceSize n) (replicate KeySize 0)"
    using assms(5) by (simp add: Keys_Encrypt_blob[OF assms(3)] racy_zero_all length_array_of)
  show ?thesis
    using assms(1,2)
    by (simp add: b KeysDecrypt_blob[OF _ _ assms(4)] length_array_of racy_zero_all
        secretbox_ok_def xdr_Keys_decode)
qed

lemma stub_scrypt:
  "p_scrypt_Key stub_prims password salt 32768 16 2 KeySize = Some (array_of KeySize (password @ salt))"
  by (simp add: stub_prims_def stub_scrypt_Key_def)

lemma hunter2_neq: "hunter2 \<noteq> Hunter2"
  by (simp add: hunter2_def Hunter2_def bytes_of_string_def)

text \<open>
  C7, at one input. The bundle \<open>keys0\<close> is wrapped under "hunter2" while the goroutine
  zeroes the key first. Unwrapping with "Hunter2", the goroutine again first, returns
  the bundle; unwrapping with "hunter2" itself, the goroutine last, is refused.
\<close>

theorem keys_zeroed_key_race:
  "\<exists>blob.
      Keys_Encrypt stub_prims (Some (replicate 32 0)) (Some (replicate 24 1)) (\<lambda>i. True)
        keys0 hunter2 32768 16 2 = Inr blob
    \<and> hunter2 \<noteq> Hunter2
    \<and> KeysDecrypt stub_prims (\<lambda>i. True) Hunter2 32768 16 2 (slice_of blob) = Ok keys0
    \<and> KeysDecrypt stub_prims (\<lambda>i. False) hunter2 32768 16 2 (slice_of blob)
        = Fail ErrCouldNotDecrypt"
proof -
  let ?blob = "array_of KeySize (replicate 32 0) @ array_of NonceSize (replicate 24 1) @
      p_secretbox_Seal stub_prims (xdr_Keys keys0) (array_of NonceSize (replicate 24 1))
        (racy_zero (\<lambda>i. True)
           (array_of KeySize (array_of KeySize (hunter2 @ array_of KeySize (replicate 32 0)))))"
  have e: "Keys_Encrypt stub_prims (Some (replicate 32 0)) (Some (replicate 24 1)) (\<lambda>i. True)
        keys0 hunter2 32768 16 2 = Inr ?blob"
    by (rule Keys_Encrypt_blob[OF stub_scrypt])
  have z: "KeysDecrypt stub_prims (\<lambda>i. True) Hunter2 32768 16 2 \<lparr>elems = ?blob, spare = []\<rparr>
      = Ok keys0"
    by (rule keys_unwrap_zeroed[OF stub_secretbox_ok keys0_wf stub_scrypt stub_scrypt e])
  have key: "array_of KeySize (array_of KeySize (hunter2 @ array_of KeySize (replicate 32 0)))
      \<noteq> replicate KeySize 0"
  proof
    assume "array_of KeySize (array_of KeySize (hunter2 @ array_of KeySize (replicate 32 0)))
      = replicate KeySize 0"
    then have "hd (array_of KeySize (array_of KeySize (hunter2 @ array_of KeySize (replicate 32 0))))
      = hd (replicate KeySize (0 :: byte))" by simp
    then show False
      by (simp add: array_of_def KeySize_def hunter2_def bytes_of_string_def)
  qed
  have "p_secretbox_Open stub_prims
          (p_secretbox_Seal stub_prims (xdr_Keys keys0) (array_of NonceSize (replicate 24 1))
             (replicate KeySize 0))
          (array_of NonceSize (replicate 24 1))
          (array_of KeySize (array_of KeySize (hunter2 @ array_of KeySize (replicate 32 0))))
        = None"
    using stub_secretbox_ideal key
    by (simp add: secretbox_ideal_def length_array_of del: replicate_eq_replicate)
  then have n: "KeysDecrypt stub_prims (\<lambda>i. False) hunter2 32768 16 2
      \<lparr>elems = ?blob, spare = []\<rparr> = Fail ErrCouldNotDecrypt"
    by (simp add: KeysDecrypt_blob[OF _ _ stub_scrypt] length_array_of racy_zero_none
        racy_zero_all)
  from e z n hunter2_neq show ?thesis
    unfolding slice_of_def by blast
qed

section \<open>The secrets\<close>

lemma KeysDecrypt_secrets1:
  "KeysDecrypt stub_prims (\<lambda>i. False) hunter2 32768 16 2 \<lparr>elems = secrets1, spare = sp\<rparr> = Ok keys1"
proof -
  let ?key = "array_of 32 (hunter2 @ replicate 32 0)"
  have l: "length (replicate 32 (0 :: byte)) = KeySize" "length (replicate 24 (1 :: byte)) = NonceSize"
    by (simp_all add: KeySize_def NonceSize_def)
  have k: "array_of KeySize (array_of KeySize (hunter2 @ replicate 32 0)) = ?key"
    by (simp add: array_of_id length_array_of KeySize_def)
  have o: "p_secretbox_Open stub_prims (stub_Seal (xdr_Keys keys1) (replicate 24 1) ?key)
      (replicate 24 1) ?key = Some (xdr_Keys keys1)"
    using stub_secretbox_ok by (simp add: secretbox_ok_def stub_prims_def)
  have "KeysDecrypt stub_prims (\<lambda>i. False) hunter2 32768 16 2
      \<lparr>elems = replicate 32 0 @ replicate 24 1 @
          stub_Seal (xdr_Keys keys1) (replicate 24 1) ?key, spare = sp\<rparr> = Ok keys1"
    unfolding KeysDecrypt_blob[OF l stub_scrypt] racy_zero_none k o
    by (simp add: xdr_Keys_decode keys1_wf)
  then show ?thesis by (simp add: secrets1_def)
qed

lemma keys0_neq_keys1: "MD keys0 \<noteq> MD keys1"
  by (simp add: keys0_def keys1_def)

lemma verifySecrets_secrets1:
  "a_keys a = keys0 \<Longrightarrow>
   verifySecrets stub_prims (\<lambda>i. False) a hunter2 \<lparr>elems = secrets1, spare = sp\<rparr>
     = Fail ErrSecretsNotIdentical"
  using keys0_neq_keys1 by (simp add: verifySecrets_def KeysDecrypt_secrets1)

text \<open>
  Without a password file the loop of \<open>downloadSecrets\<close> has three ways out: the prompt
  fails, the verification panics, or it succeeds. "remote secrets not identical to local
  secrets" is none of them, however the remote bundle compares.
\<close>

lemma secrets_loop_never_mismatch:
  assumes "e_ReadPassword E = Inl ErrNotExist"
    and "\<And>p. e_WritePassword E p \<noteq> Some ErrSecretsNotIdentical"
  shows "fst (secrets_loop P E zs blob a) \<noteq> Fail ErrSecretsNotIdentical"
  using assms
proof (induction P E zs blob a rule: secrets_loop.induct)
  case (1 P E zs blob a)
  obtain r a1 where pp: "PromptPassword E (say MsgNoPasswordFile a) False = (r, a1)"
    by (cases "PromptPassword E (say MsgNoPasswordFile a) False")
  show ?case
  proof (cases r)
    case (Inl e)
    then have "e = ErrIO"
      using pp by (auto simp: PromptPassword_def split: prod.splits option.splits)
    with Inl pp "1.prems"(1) show ?thesis
      by (subst secrets_loop.simps) simp
  next
    case (Inr p)
    show ?thesis
    proof (cases "verifySecrets P zs a1 p blob")
      case (Ok u)
      with Inr pp "1.prems" show ?thesis
        by (subst secrets_loop.simps) (auto split: option.splits)
    next
      case (Fail e)
      have "fst (secrets_loop P E zs blob (say (MsgInvalidPassword e) a1))
          \<noteq> Fail ErrSecretsNotIdentical"
        using "1.IH"[OF "1.prems"(1) _ pp[symmetric] Inr Fail "1.prems"(1)] "1.prems"(2)
        by simp
      with Inr pp Fail "1.prems"(1) show ?thesis
        by (subst secrets_loop.simps) simp
    next
      case Panic
      with Inr pp "1.prems"(1) show ?thesis
        by (subst secrets_loop.simps) simp
    qed
  qed
qed

text \<open>
  C8, at one input. The remote blob wraps \<open>keys1\<close> under "hunter2"; the local bundle is
  \<open>keys0\<close>; there is no password file and the user types "hunter2" twice. The blob opens,
  the bundles differ, and \<open>downloadSecrets\<close> prints "invalid password", prompts again and
  ends with the error of the exhausted terminal. With the same password in a password
  file the same call returns "remote secrets not identical to local secrets".
\<close>

theorem key_mismatch_is_retried:
  "KeysDecrypt stub_prims (\<lambda>i. False) hunter2 32768 16 2 (slice_of secrets1) = Ok keys1
   \<and> MD keys1 \<noteq> MD (a_keys acdb0)
   \<and> downloadSecrets stub_prims
       (env_of fs0 None (Some (''metadata/secrets'', slice_of secrets1)) (Inl ErrNotExist))
       (\<lambda>i. False) (acdb0\<lparr>a_tty := [hunter2, hunter2]\<rparr>)
     = (Fail ErrIO,
        acdb0\<lparr>a_out := [MsgNoPasswordFile, MsgInvalidPassword ErrSecretsNotIdentical,
                        MsgNoPasswordFile],
               a_trace := [EvFind ''metadata/secrets'', EvDownload ''asset-1''],
               a_tty := []\<rparr>)
   \<and> fst (downloadSecrets stub_prims
            (env_of fs0 None (Some (''metadata/secrets'', slice_of secrets1)) (Inr hunter2))
            (\<lambda>i. False) acdb0)
     = Fail ErrSecretsNotIdentical"
proof -
  let ?E = "env_of fs0 None (Some (''metadata/secrets'', slice_of secrets1)) (Inl ErrNotExist)"
  let ?F = "env_of fs0 None (Some (''metadata/secrets'', slice_of secrets1)) (Inr hunter2)"
  have ne: "hunter2 \<noteq> []" by (simp add: hunter2_def bytes_of_string_def)
  have 1: "KeysDecrypt stub_prims (\<lambda>i. False) hunter2 32768 16 2 (slice_of secrets1) = Ok keys1"
    by (simp add: slice_of_def KeysDecrypt_secrets1)
  have 2: "MD keys1 \<noteq> MD (a_keys acdb0)"
    using keys0_neq_keys1 by (simp add: acdb0_simps)
  have v: "a_keys a = keys0 \<Longrightarrow>
      verifySecrets stub_prims (\<lambda>i. False) a hunter2 (slice_of secrets1)
        = Fail ErrSecretsNotIdentical" for a
    by (simp add: slice_of_def verifySecrets_secrets1)
  have 3: "downloadSecrets stub_prims ?E (\<lambda>i. False) (acdb0\<lparr>a_tty := [hunter2, hunter2]\<rparr>)
     = (Fail ErrIO,
        acdb0\<lparr>a_out := [MsgNoPasswordFile, MsgInvalidPassword ErrSecretsNotIdentical,
                        MsgNoPasswordFile],
               a_trace := [EvFind ''metadata/secrets'', EvDownload ''asset-1''],
               a_tty := []\<rparr>)"
    by (simp add: downloadSecrets_def env_of_simps Let_def PromptPassword_def say_def did_def
        ne v acdb0_simps)
  have 4: "fst (downloadSecrets stub_prims ?F (\<lambda>i. False) acdb0) = Fail ErrSecretsNotIdentical"
    by (simp add: downloadSecrets_def env_of_simps Let_def did_def v acdb0_simps)
  from 1 2 3 4 show ?thesis by blast
qed

section \<open>The manifest round-trip\<close>

lemma xdr_Time_roundtrip: "xdr_decode_Time (xdr_Time t @ r) = Some (t, r)"
  by (simp add: xdr_decode_Time_def xdr_Time_def xdr_uint64_roundtrip xdr_uint32_roundtrip)

lemma xdr_MHeader_roundtrip:
  "length (m_Compression h) = 4 \<Longrightarrow> xdr_decode_MHeader (xdr_MHeader h @ r) = Some (h, r)"
  by (simp add: xdr_decode_MHeader_def xdr_MHeader_def xdr_uint32_roundtrip xdr_opaque_roundtrip)

lemma xdr_Dir_roundtrip:
  "length (d_Name d) < 2 ^ 32 \<Longrightarrow> xdr_decode_Dir (xdr_Dir d @ r) = Some (d, r)"
  by (simp add: xdr_decode_Dir_def xdr_Dir_def xdr_string_roundtrip xdr_uint32_roundtrip
      xdr_Time_roundtrip)

lemma xdr_Symlink_roundtrip:
  "length (s_Name l) < 2 ^ 32 \<Longrightarrow> length (s_Link l) < 2 ^ 32 \<Longrightarrow>
   xdr_decode_Symlink (xdr_Symlink l @ r) = Some (l, r)"
  by (simp add: xdr_decode_Symlink_def xdr_Symlink_def xdr_string_roundtrip)

lemma xdr_File_roundtrip:
  "length (f_Name f) < 2 ^ 32 \<Longrightarrow> length (f_MimeType f) < 2 ^ 32 \<Longrightarrow> length (f_Digest f) = 32 \<Longrightarrow>
   xdr_decode_File (xdr_File f @ r) = Some (f, r)"
  by (simp add: xdr_decode_File_def xdr_File_def xdr_string_roundtrip xdr_uint32_roundtrip
      xdr_uint64_roundtrip xdr_Time_roundtrip xdr_opaque_roundtrip)

lemma Type_tags:
  "length TypeDir = 4" "length TypeSymlink = 4" "length TypeFile = 4"
  "TypeDir \<noteq> TypeSymlink" "TypeDir \<noteq> TypeFile" "TypeSymlink \<noteq> TypeFile"
  "TypeSymlink \<noteq> TypeDir" "TypeFile \<noteq> TypeDir" "TypeFile \<noteq> TypeSymlink"
  by (simp_all add: TypeDir_def TypeSymlink_def TypeFile_def bytes_of_string_def)

lemma Next_entry:
  assumes "legal_entry x"
  shows "Next \<lparr>md_data = encode_entry x @ r, md_end = e\<rparr>
           = (NextEntry x, \<lparr>md_data = r, md_end = e\<rparr>)"
proof (cases x)
  case (EDir d)
  with assms show ?thesis
    by (simp add: Next_def take_n_append Type_tags xdr_Dir_roundtrip)
next
  case (ESymlink l)
  with assms show ?thesis
    by (simp add: Next_def take_n_append Type_tags xdr_Symlink_roundtrip)
next
  case (EFile f)
  with assms show ?thesis
    by (simp add: Next_def take_n_append Type_tags xdr_File_roundtrip)
qed

lemma Next_end:
  "e \<noteq> GzCorrupt \<Longrightarrow> Next \<lparr>md_data = [], md_end = e\<rparr> = (NextEOF, \<lparr>md_data = [], md_end = e\<rparr>)"
  by (simp add: Next_def take_n_def)

lemma read_all_entries:
  assumes "list_all legal_entry xs" "e \<noteq> GzCorrupt" "length xs \<le> n"
  shows "read_all n \<lparr>md_data = concat (map encode_entry xs), md_end = e\<rparr> = Some (xs, None)"
  using assms
proof (induction xs arbitrary: n)
  case Nil
  then show ?case by (cases n) (simp_all add: Next_end)
next
  case (Cons x xs)
  then obtain k where n: "n = Suc k" by (cases n) auto
  with Cons show ?case by (simp add: Next_entry)
qed

lemma length_encode_entry: "4 \<le> length (encode_entry x)"
  by (cases x) (simp_all add: Type_tags)

lemma length_entries: "length xs \<le> length (concat (map encode_entry xs))"
proof (induction xs)
  case Nil
  then show ?case by simp
next
  case (Cons x xs)
  then show ?case using length_encode_entry[of x] by simp
qed

lemma length_xdr_MHeader: "length (m_Compression h) = 4 \<Longrightarrow> length (xdr_MHeader h) = 8"
  by (simp add: xdr_MHeader_def xdr_uint32_def xdr_opaque_def xdr_pad_def length_be_bytes)

lemma me_inv_NewEncoder: "me_inv c (NewEncoder c)" "records_of (NewEncoder c) = []"
  by (simp_all add: me_inv_def NewEncoder_def length_xdr_MHeader length_Comp records_of_def)

lemma me_inv_Encode:
  assumes "me_inv c m"
  shows "me_Encode m d = (None, m\<lparr>me_bw := bw_Write (me_bw m) d\<rparr>)"
    and "me_inv c (m\<lparr>me_bw := bw_Write (me_bw m) d\<rparr>)"
    and "records_of (m\<lparr>me_bw := bw_Write (me_bw m) d\<rparr>) = records_of m @ d"
proof -
  have nb: "\<not> me_broken m" using assms by (simp add: me_inv_def)
  then show "me_Encode m d = (None, m\<lparr>me_bw := bw_Write (me_bw m) d\<rparr>)"
    by (simp add: me_Encode_def)
  show "me_inv c (m\<lparr>me_bw := bw_Write (me_bw m) d\<rparr>)"
    using assms
    by (cases c; cases "me_bw m") (simp_all add: me_inv_def bw_Write_def)
  show "records_of (m\<lparr>me_bw := bw_Write (me_bw m) d\<rparr>) = records_of m @ d"
    by (cases "me_bw m") (simp_all add: bw_Write_def records_of_def gz_payload_append)
qed

lemma me_inv_Flush:
  assumes "me_inv c m"
  shows "me_inv c (me_Flush m)" "records_of (me_Flush m) = records_of m"
proof -
  have both: "me_inv c (me_Flush m) \<and> records_of (me_Flush m) = records_of m"
  proof (cases "me_bw m")
    case (BufioWriter pending)
    then have nc: "\<not> c" using assms by (cases c) (simp_all add: me_inv_def)
    then have "length (take 8 (me_w m)) = 8"
      using assms by (simp add: me_inv_def)
    then have "8 \<le> length (me_w m)" by simp
    then show ?thesis
      using assms nc by (simp add: me_inv_def me_Flush_def records_of_def BufioWriter)
  next
    case (GzipWriter ops)
    then have "c" using assms by (cases c) (simp_all add: me_inv_def)
    then show ?thesis
      using assms by (simp add: me_inv_def me_Flush_def records_of_def gz_payload_append GzipWriter)
  qed
  from both show "me_inv c (me_Flush m)" "records_of (me_Flush m) = records_of m" by simp_all
qed

lemma me_inv_step:
  assumes "me_inv cp m" "call_ok ev rel c"
  shows "me_inv cp (me_step ev rel m c)"
    and "records_of (me_step ev rel m c) =
           records_of m @ (case entry_of_call ev rel c of None \<Rightarrow> [] | Some x \<Rightarrow> encode_entry x)"
proof -
  have both: "me_inv cp (me_step ev rel m c) \<and> records_of (me_step ev rel m c) =
           records_of m @ (case entry_of_call ev rel c of None \<Rightarrow> [] | Some x \<Rightarrow> encode_entry x)"
  proof (cases c)
    case (CallDir path fi)
    note e = me_inv_Encode[OF assms(1), of TypeDir]
    note e' = me_inv_Encode[OF e(2), of "xdr_Dir (Dir_entry path fi)"]
    have "me_step ev rel m c = m\<lparr>me_bw := bw_Write (bw_Write (me_bw m) TypeDir)
        (xdr_Dir (Dir_entry path fi))\<rparr>"
      using e'(1) by (simp add: CallDir me_Dir_def e(1))
    then show ?thesis using e'(2,3) e(3) by (simp add: CallDir)
  next
    case (CallSymlink path fi)
    then obtain resolved link where r: "ev path = Some resolved"
      and l: "(if filepath_IsAbs path then Some resolved else rel path resolved) = Some link"
      using assms(2) by (auto split: option.splits)
    note e = me_inv_Encode[OF assms(1), of TypeSymlink]
    note e' = me_inv_Encode[OF e(2), of "xdr_Symlink \<lparr>s_Name = path, s_Link = link\<rparr>"]
    have "me_step ev rel m c = m\<lparr>me_bw := bw_Write (bw_Write (me_bw m) TypeSymlink)
        (xdr_Symlink \<lparr>s_Name = path, s_Link = link\<rparr>)\<rparr>"
      using l e'(1) by (simp add: CallSymlink me_Symlink_def e(1) r)
    then show ?thesis using e'(2,3) e(3) l by (simp add: CallSymlink r)
  next
    case (CallFile path fi mime digest)
    note e = me_inv_Encode[OF assms(1), of TypeFile]
    note e' = me_inv_Encode[OF e(2), of "xdr_File (File_entry path fi mime digest)"]
    have "me_step ev rel m c = m\<lparr>me_bw := bw_Write (bw_Write (me_bw m) TypeFile)
        (xdr_File (File_entry path fi mime digest))\<rparr>"
      using e'(1) by (simp add: CallFile me_File_def e(1))
    then show ?thesis using e'(2,3) e(3) by (simp add: CallFile)
  next
    case CallFlush
    then show ?thesis using me_inv_Flush[OF assms(1)] by simp
  qed
  from both show "me_inv cp (me_step ev rel m c)"
    and "records_of (me_step ev rel m c) =
           records_of m @ (case entry_of_call ev rel c of None \<Rightarrow> [] | Some x \<Rightarrow> encode_entry x)"
    by simp_all
qed

lemma me_inv_run:
  assumes "me_inv cp m" "list_all (call_ok ev rel) calls"
  shows "me_inv cp (me_run ev rel calls m) \<and>
         records_of (me_run ev rel calls m) =
           records_of m @ concat (map encode_entry (entries_of ev rel calls))"
  using assms
proof (induction calls arbitrary: m)
  case Nil
  then show ?case by (simp add: me_run_def entries_of_def map_filter_simps)
next
  case (Cons c calls)
  from Cons.prems have ok: "call_ok ev rel c" and rest: "list_all (call_ok ev rel) calls"
    by simp_all
  note st = me_inv_step[OF Cons.prems(1) ok]
  from Cons.IH[OF st(1) rest] st(2) show ?case
    by (simp add: me_run_def entries_of_def map_filter_simps split: option.splits)
qed

text \<open>
  The manifest round trip. Calls that succeed, on a sink that takes the writes, with
  legal entries: after the final \<open>Flush\<close> the reader decodes from the sink exactly the
  entries written, in order, with and without compression. With compression this rests
  on the reader handing out the data of a stream that was flushed and not closed, and on
  \<open>IsEOF\<close> taking the \<open>io.ErrUnexpectedEOF\<close> that follows for the end of the stream.
\<close>

lemma manifest_roundtrip:
  assumes calls: "list_all (call_ok ev rel) calls"
    and legal: "list_all legal_entry (entries_of ev rel calls)"
    and gz: "gzip_flushed_ok P"
  shows "\<exists>d. NewDecoder P (sink_bytes P (me_Flush (me_run ev rel calls (NewEncoder compress)))) = Ok d
           \<and> read_all (length (md_data d)) d = Some (entries_of ev rel calls, None)"
proof -
  let ?m = "me_run ev rel calls (NewEncoder compress)"
  let ?recs = "concat (map encode_entry (entries_of ev rel calls))"
  have inv: "me_inv compress ?m" and recs: "records_of ?m = ?recs"
    using me_inv_run[OF me_inv_NewEncoder(1) calls, of compress]
    by (simp_all add: me_inv_NewEncoder(2))
  have hd_dec: "length (m_Compression h) = 4 \<Longrightarrow>
      xdr_decode_MHeader (xdr_MHeader h @ r) = Some (h, r)" for h r
    by (rule xdr_MHeader_roundtrip)
  show ?thesis
  proof (cases compress)
    case True
    let ?h = "\<lparr>m_Version = 1, m_Compression = CompGZIP\<rparr>"
    from inv True obtain ops where bw: "me_bw ?m = GzipWriter ops" and w: "me_w ?m = xdr_MHeader ?h"
      and nc: "GzClose \<notin> set ops"
      by (cases "me_bw ?m") (simp_all add: me_inv_def)
    have pl: "gz_payload ops = ?recs" using recs bw by (simp add: records_of_def)
    have sink: "sink_bytes P (me_Flush ?m) = xdr_MHeader ?h @ p_gzip_Writer P (ops @ [GzFlush])"
      by (simp add: sink_bytes_def me_Flush_def bw w)
    have rd: "p_pgzip_Reader P (p_gzip_Writer P (ops @ [GzFlush])) = Some (?recs, GzUnexpectedEOF)"
      using gz nc pl by (simp add: gzip_flushed_ok_def)
    have "NewDecoder P (sink_bytes P (me_Flush ?m)) = Ok \<lparr>md_data = ?recs, md_end = GzUnexpectedEOF\<rparr>"
      by (simp add: NewDecoder_def sink hd_dec length_Comp rd CompNone_neq_CompGZIP[symmetric])
    moreover have "read_all (length ?recs) \<lparr>md_data = ?recs, md_end = GzUnexpectedEOF\<rparr>
        = Some (entries_of ev rel calls, None)"
      by (rule read_all_entries[OF legal _ length_entries]) simp
    ultimately show ?thesis by simp
  next
    case False
    let ?h = "\<lparr>m_Version = 1, m_Compression = CompNone\<rparr>"
    from inv False obtain p where bw: "me_bw ?m = BufioWriter p"
      and t8: "take 8 (me_w ?m) = xdr_MHeader ?h"
      by (cases "me_bw ?m") (simp_all add: me_inv_def)
    have "me_w ?m @ p = take 8 (me_w ?m) @ drop 8 (me_w ?m) @ p" by simp
    also have "\<dots> = xdr_MHeader ?h @ ?recs"
      using recs bw t8 by (simp add: records_of_def)
    finally have sink: "sink_bytes P (me_Flush ?m) = xdr_MHeader ?h @ ?recs"
      by (simp add: sink_bytes_def me_Flush_def bw)
    have "NewDecoder P (sink_bytes P (me_Flush ?m)) = Ok \<lparr>md_data = ?recs, md_end = GzEOF\<rparr>"
      by (simp add: NewDecoder_def sink hd_dec length_Comp)
    moreover have "read_all (length ?recs) \<lparr>md_data = ?recs, md_end = GzEOF\<rparr>
        = Some (entries_of ev rel calls, None)"
      by (rule read_all_entries[OF legal _ length_entries]) simp
    ultimately show ?thesis by simp
  qed
qed

text \<open>The round trip and the key wrapping at concrete inputs.\<close>

lemma manifest_roundtrip_example:
  "\<exists>d. NewDecoder stub_prims
          (sink_bytes stub_prims
             (me_Flush (me_run (\<lambda>p. None) (\<lambda>p q. None)
                          [CallDir ''d'' info0, CallFile ''d/a'' info0 ''text/plain'' None]
                          (NewEncoder True)))) = Ok d
      \<and> read_all (length (md_data d)) d =
          Some ([EDir (Dir_entry ''d'' info0), EFile (File_entry ''d/a'' info0 ''text/plain'' None)],
                None)"
  using manifest_roundtrip[OF _ _ stub_gzip_flushed_ok,
      of "\<lambda>p. None" "\<lambda>p q. None"
         "[CallDir ''d'' info0, CallFile ''d/a'' info0 ''text/plain'' None]" True]
  by (simp add: entries_of_def map_filter_simps Dir_entry_def File_entry_def)

lemma keys_wrap_unwrap_example:
  "\<exists>box. Keys_Encrypt stub_prims (Some (replicate 32 0)) (Some (replicate 24 1)) (\<lambda>i. False)
            keys0 hunter2 32768 16 2 = Inr (replicate 32 0 @ replicate 24 1 @ box)
        \<and> box = p_secretbox_Seal stub_prims (xdr_Keys keys0) (replicate 24 1)
                  (array_of 32 (hunter2 @ replicate 32 0))
        \<and> KeysDecrypt stub_prims (\<lambda>i. False) hunter2 32768 16 2
             \<lparr>elems = replicate 32 0 @ replicate 24 1 @ box, spare = [0]\<rparr> = Ok keys0"
proof -
  have a: "array_of KeySize (replicate 32 0) = replicate 32 0"
    "array_of NonceSize (replicate 24 1) = replicate 24 1"
    "array_of KeySize (array_of KeySize (hunter2 @ replicate 32 0))
       = array_of 32 (hunter2 @ replicate 32 0)"
    by (simp_all add: array_of_id length_array_of KeySize_def NonceSize_def)
  show ?thesis
    using keys_wrap_unwrap[where password = hunter2 and s = "replicate 32 0"
        and n = "replicate 24 1" and sp = "[0]", OF stub_secretbox_ok keys0_wf stub_scrypt]
    by (simp add: a)
qed

end
